theory Spec2Isabelle
  imports Complex_Main "HOL-Library.Product_Lexorder" "HOL-Library.Sublist"
begin

section \<open>Strings\<close>

text \<open>
  A Python \<open>str\<close> is a sequence of code points. The model writes it as a \<open>char list\<close> in
  which every \<open>char\<close> stands for one code point below 256, so \<open>length\<close> counts what
  \<open>len\<close> counts. Floating-point numbers are written as reals, Python's integers as \<open>int\<close>.
  An exception is a value \<open>Inl e\<close> of a sum type, and a call that does not return is \<open>None\<close>.
  The remote services (the embeddings endpoint, the chat endpoint, the OCR adapter) and the
  rows of the two tables are parameters of the functions that use them.
\<close>

definition newline :: char where
  "newline = CHR 0x0A"

text \<open>\<open>str.isspace\<close> on one code point below 256; the regular expression class \<open>\s\<close> of a
  \<open>str\<close> pattern is the same set.\<close>

definition is_space :: "char \<Rightarrow> bool" where
  "is_space c \<longleftrightarrow>
     (let n = of_char c :: nat
      in (9 \<le> n \<and> n \<le> 13) \<or> (28 \<le> n \<and> n \<le> 32) \<or> n = 133 \<or> n = 160)"

text \<open>\<open>s.strip()\<close>, \<open>s.strip(chars)\<close> and \<open>s.rstrip(chars)\<close>.\<close>

definition py_strip :: "string \<Rightarrow> string" where
  "py_strip s = rev (dropWhile is_space (rev (dropWhile is_space s)))"

definition py_strip_chars :: "string \<Rightarrow> string \<Rightarrow> string" where
  "py_strip_chars chars s =
     rev (dropWhile (\<lambda>c. c \<in> set chars) (rev (dropWhile (\<lambda>c. c \<in> set chars) s)))"

definition py_rstrip_chars :: "string \<Rightarrow> string \<Rightarrow> string" where
  "py_rstrip_chars chars s = rev (dropWhile (\<lambda>c. c \<in> set chars) (rev s))"

text \<open>\<open>s[lo:hi]\<close> for integer bounds: a negative bound counts from the end, and both are
  clipped to the string.\<close>

definition py_bound :: "nat \<Rightarrow> int \<Rightarrow> nat" where
  "py_bound n i = (if i < 0 then nat (max (i + int n) 0) else min (nat i) n)"

definition py_slice :: "'a list \<Rightarrow> int \<Rightarrow> int \<Rightarrow> 'a list" where
  "py_slice xs lo hi =
     (let a = py_bound (length xs) lo; b = py_bound (length xs) hi
      in if a < b then take (b - a) (drop a xs) else [])"

text \<open>\<open>xs[:k]\<close>.\<close>

definition py_prefix :: "'a list \<Rightarrow> int \<Rightarrow> 'a list" where
  "py_prefix xs k = take (py_bound (length xs) k) xs"

text \<open>\<open>s.startswith(p)\<close>, and the rest of \<open>s\<close> after a leading \<open>p\<close>.\<close>

fun after_prefix :: "string \<Rightarrow> string \<Rightarrow> string option" where
  "after_prefix [] s = Some s"
| "after_prefix (p # ps) [] = None"
| "after_prefix (p # ps) (c # cs) = (if p = c then after_prefix ps cs else None)"

definition startswith :: "string \<Rightarrow> string \<Rightarrow> bool" where
  "startswith s p \<longleftrightarrow> after_prefix p s \<noteq> None"

section \<open>The segmenter: \<open>chunk_text\<close>\<close>

definition CHUNK_SIZE :: int where
  "CHUNK_SIZE = 750"

definition CHUNK_OVERLAP :: int where
  "CHUNK_OVERLAP = 70"

text \<open>
  The \<open>while\<close> loop of \<open>chunk_text\<close>, with the list built so far and the start position
  as its state. \<open>None\<close> is a loop that never ends.
\<close>

partial_function (option) chunk_text_loop ::
  "string \<Rightarrow> int \<Rightarrow> int \<Rightarrow> string list \<Rightarrow> int \<Rightarrow> string list option" where
  "chunk_text_loop text chunk_size overlap chunks start =
     (if start < int (length text)
      then (let endp = start + chunk_size;
                chunk = py_strip (py_slice text start endp)
            in chunk_text_loop text chunk_size overlap
                 (if chunk \<noteq> [] then chunks @ [chunk] else chunks)
                 (start + (chunk_size - overlap)))
      else Some chunks)"

definition chunk_text :: "string \<Rightarrow> int \<Rightarrow> int \<Rightarrow> string list option" where
  "chunk_text text chunk_size overlap = chunk_text_loop text chunk_size overlap [] 0"

declare chunk_text_loop.simps [code]

text \<open>The windows of the sliding-window description: window \<open>i\<close> starts at \<open>i * (L - O)\<close>
  and is \<open>L\<close> characters long, less where the text ends.\<close>

definition window :: "string \<Rightarrow> int \<Rightarrow> int \<Rightarrow> nat \<Rightarrow> string" where
  "window text chunk_size overlap i =
     take (nat chunk_size) (drop (i * nat (chunk_size - overlap)) text)"

definition window_count :: "string \<Rightarrow> int \<Rightarrow> int \<Rightarrow> nat" where
  "window_count text chunk_size overlap =
     (length text + nat (chunk_size - overlap) - 1) div nat (chunk_size - overlap)"

section \<open>The retrieval engine: \<open>retrieve_similar_chunks\<close>\<close>

datatype py_error = ValueError | AttributeError | IndexError | KeyError | OverflowError
  | RemoteError string | HTTPException int string

definition SIMILARITY_THRESHOLD :: real where
  "SIMILARITY_THRESHOLD = 0.4"

definition MAX_RESULTS :: int where
  "MAX_RESULTS = 50"

text \<open>\<open>s.split(sep)\<close> for a separator of one character: never an empty list.\<close>

fun py_split :: "char \<Rightarrow> string \<Rightarrow> string list" where
  "py_split sep [] = [[]]"
| "py_split sep (c # cs) =
     (if c = sep then [] # py_split sep cs
      else (case py_split sep cs of
              [] \<Rightarrow> [[c]]
            | p # ps \<Rightarrow> (c # p) # ps))"

text \<open>
  \<open>str.isdigit\<close>: below 256 the digit characters are \<open>0\<close> to \<open>9\<close> and the three superscripts
  (code points 178, 179 and 185), which \<open>int\<close> does not accept.
\<close>

definition is_decimal_char :: "char \<Rightarrow> bool" where
  "is_decimal_char c \<longleftrightarrow> (48 \<le> (of_char c :: nat) \<and> (of_char c :: nat) \<le> 57)"

definition is_digit_char :: "char \<Rightarrow> bool" where
  "is_digit_char c \<longleftrightarrow>
     is_decimal_char c \<or> (of_char c :: nat) = 178 \<or> (of_char c :: nat) = 179
       \<or> (of_char c :: nat) = 185"

definition isdigit :: "string \<Rightarrow> bool" where
  "isdigit s \<longleftrightarrow> s \<noteq> [] \<and> list_all is_digit_char s"

definition INT_MAX_STR_DIGITS :: nat where
  "INT_MAX_STR_DIGITS = 4300"

text \<open>
  \<open>int(s)\<close> for a string on which \<open>isdigit\<close> holds: the decimal value, and \<open>ValueError\<close> for a
  digit character that is not decimal or for a string longer than the interpreter's limit on
  decimal strings (4300 digits unless configured).
\<close>

definition py_int :: "string \<Rightarrow> py_error + int" where
  "py_int s =
     (if list_all is_decimal_char s \<and> length s \<le> INT_MAX_STR_DIGITS
      then Inr (foldl (\<lambda>n c. 10 * n + (int (of_char c) - 48)) 0 s)
      else Inl ValueError)"

text \<open>
  The expression stored under \<open>post_number\<close>:
  \<^verbatim>\<open>int(url.rstrip("/").split("/")[-1]) if url.rstrip("/").split("/")[-1].isdigit() else 0\<close>.
  A \<open>url\<close> that is \<open>None\<close> (a \<open>NULL\<close> column) has no \<open>rstrip\<close>: \<open>AttributeError\<close>.
\<close>

definition post_number_of :: "string option \<Rightarrow> py_error + int" where
  "post_number_of url =
     (case url of
        None \<Rightarrow> Inl AttributeError
      | Some u \<Rightarrow>
          (let seg = last (py_split (CHR ''/'') (py_rstrip_chars ''/'' u))
           in if isdigit seg then py_int seg else Inr 0))"

text \<open>
  \<open>cosine_similarity\<close>. \<open>np.dot\<close> raises on vectors of different lengths; a zero denominator
  gives \<open>nan\<close>, written \<open>None\<close>, with a warning and no exception.
\<close>

definition dot :: "real list \<Rightarrow> real list \<Rightarrow> real" where
  "dot a b = sum_list (map2 (*) a b)"

definition linalg_norm :: "real list \<Rightarrow> real" where
  "linalg_norm a = sqrt (sum_list (map (\<lambda>x. x * x) a))"

definition cosine_similarity :: "real list \<Rightarrow> real list \<Rightarrow> py_error + real option" where
  "cosine_similarity a b =
     (if length a \<noteq> length b then Inl ValueError
      else if linalg_norm a * linalg_norm b = 0 then Inr None
      else Inr (Some (dot a b / (linalg_norm a * linalg_norm b))))"

text \<open>
  A row of \<open>SELECT url, text, embedding\<close>: the \<open>url\<close> column (\<open>None\<close> for \<open>NULL\<close>), the text,
  and the embedding column as \<open>json.loads\<close> reads it: \<open>Some v\<close> for a flat array of numbers,
  \<open>None\<close> for a value on which \<open>json.loads\<close>, \<open>len\<close> or the numpy calls raise.
\<close>

type_synonym row = "string option \<times> string \<times> real list option"

record chunk =
  source :: string
  content :: string
  url :: "string option"
  similarity :: real
  post_number :: int

text \<open>
  The body of the loop over the rows of one table. \<open>Inl e\<close>: an exception, caught by the
  \<open>except\<close> clause, the row is skipped. \<open>Inr None\<close>: the row is passed over (\<open>continue\<close>, or a
  similarity below the threshold; no comparison with \<open>nan\<close> holds). \<open>Inr (Some c)\<close>: \<open>c\<close> is
  appended to \<open>all_chunks\<close>.
\<close>

definition row_chunk :: "real list \<Rightarrow> string \<Rightarrow> row \<Rightarrow> py_error + chunk option" where
  "row_chunk question_embedding src r =
     (case r of (u, txt, emb_json) \<Rightarrow>
        (case emb_json of
           None \<Rightarrow> Inl ValueError
         | Some emb \<Rightarrow>
             if length emb \<noteq> length question_embedding then Inr None
             else (case cosine_similarity question_embedding emb of
                     Inl e \<Rightarrow> Inl e
                   | Inr None \<Rightarrow> Inr None
                   | Inr (Some sim) \<Rightarrow>
                       if sim \<ge> SIMILARITY_THRESHOLD
                       then (case post_number_of u of
                               Inl e \<Rightarrow> Inl e
                             | Inr n \<Rightarrow>
                                 Inr (Some \<lparr>source = src, content = txt, url = u,
                                            similarity = sim, post_number = n\<rparr>))
                       else Inr None)))"

fun table_chunks :: "real list \<Rightarrow> string \<Rightarrow> row list \<Rightarrow> chunk list" where
  "table_chunks question_embedding src [] = []"
| "table_chunks question_embedding src (r # rs) =
     (case row_chunk question_embedding src r of
        Inr (Some c) \<Rightarrow> c # table_chunks question_embedding src rs
      | _ \<Rightarrow> table_chunks question_embedding src rs)"

text \<open>\<open>all_chunks\<close> after the loop over \<open>["forum_chunks", "course_chunks"]\<close>; the \<open>source\<close> of a
  chunk is the table's name without \<open>_chunks\<close>.\<close>

definition all_chunks :: "real list \<Rightarrow> row list \<Rightarrow> row list \<Rightarrow> chunk list" where
  "all_chunks question_embedding forum_chunks course_chunks =
     table_chunks question_embedding ''forum'' forum_chunks
       @ table_chunks question_embedding ''course'' course_chunks"

text \<open>The sort key \<open>(-x["similarity"], -x["post_number"])\<close>; tuples compare lexicographically,
  and \<open>sorted\<close> is stable.\<close>

definition rank_key :: "chunk \<Rightarrow> real \<times> int" where
  "rank_key x = (- similarity x, - post_number x)"

text \<open>Lines 73 to 95: the function once the question's embedding is known.\<close>

definition retrieve :: "real list \<Rightarrow> row list \<Rightarrow> row list \<Rightarrow> int \<Rightarrow> chunk list" where
  "retrieve question_embedding forum_chunks course_chunks top_k =
     py_prefix (sort_key rank_key (all_chunks question_embedding forum_chunks course_chunks)) top_k"

text \<open>\<open>get_embedding\<close> is the remote call; its failure leaves the function as an exception.\<close>

definition retrieve_similar_chunks ::
  "(string \<Rightarrow> py_error + real list) \<Rightarrow> row list \<Rightarrow> row list \<Rightarrow> string \<Rightarrow> int
     \<Rightarrow> py_error + chunk list" where
  "retrieve_similar_chunks get_embedding forum_chunks course_chunks question top_k =
     (case get_embedding question of
        Inl e \<Rightarrow> Inl e
      | Inr question_embedding \<Rightarrow>
          Inr (retrieve question_embedding forum_chunks course_chunks top_k))"

section \<open>Ingestion: \<open>embed\<close>, \<open>process_forum_json\<close>, \<open>process_course_md\<close>\<close>

text \<open>
  An item of \<open>response.data\<close>. The embeddings endpoint is a parameter \<open>create\<close> of the model:
  the list of texts goes in, and the call either raises or returns the items of its response.
\<close>

record embedding_item =
  index :: nat
  embedding :: "real list"

type_synonym embeddings_create = "string list \<Rightarrow> py_error + embedding_item list"

definition embed :: "embeddings_create \<Rightarrow> string list \<Rightarrow> py_error + real list list" where
  "embed create texts =
     (case create texts of
        Inl e \<Rightarrow> Inl e
      | Inr data \<Rightarrow> Inr (map embedding data))"

text \<open>\<open>str(n)\<close> for an integer, as the f-string of the forum URL writes it.\<close>

fun str_nat :: "nat \<Rightarrow> string" where
  "str_nat n =
     (if n < 10 then [char_of (48 + n)]
      else str_nat (n div 10) @ [char_of (48 + n mod 10)])"

definition str_int :: "int \<Rightarrow> string" where
  "str_int i = (if i < 0 then CHR ''-'' # str_nat (nat (- i)) else str_nat (nat i))"

text \<open>A post record of a forum file; \<open>number\<close> is its \<open>post_number\<close>.\<close>

record post =
  post_id :: int
  number :: int
  topic_id :: int
  topic_title :: string
  author :: string
  post_content :: string

text \<open>A row of \<open>forum_chunks\<close> without its \<open>chunk_id\<close> (a fresh random UUID): \<open>post_id\<close>,
  \<open>post_number\<close>, \<open>topic_id\<close>, \<open>topic_title\<close>, \<open>author\<close>, \<open>url\<close>, \<open>text\<close>, \<open>embedding\<close>.\<close>

type_synonym forum_row = "int \<times> int \<times> int \<times> string \<times> string \<times> string \<times> string \<times> real list"

text \<open>
  \<open>conn.execute\<close> of the \<open>INSERT\<close> into \<open>forum_chunks\<close>. The three identifiers are bound as
  integers, and binding a Python integer outside SQLite's 64-bit \<open>INTEGER\<close> raises
  \<open>OverflowError\<close>; the other columns are text.
\<close>

definition sqlite_integer :: "int \<Rightarrow> bool" where
  "sqlite_integer i \<longleftrightarrow> - (2 ^ 63) \<le> i \<and> i < 2 ^ 63"

definition insert_forum_row :: "forum_row \<Rightarrow> py_error + forum_row" where
  "insert_forum_row r =
     (case r of (pid, pnum, tid, rest) \<Rightarrow>
        if sqlite_integer pid \<and> sqlite_integer pnum \<and> sqlite_integer tid then Inr r
        else Inl OverflowError)"

text \<open>A loop of inserts: the rows stored, or the exception of the first insert that raises.\<close>

fun insert_all :: "('r \<Rightarrow> py_error + 'r) \<Rightarrow> 'r list \<Rightarrow> py_error + 'r list" where
  "insert_all ins [] = Inr []"
| "insert_all ins (r # rs) =
     (case ins r of
        Inl e \<Rightarrow> Inl e
      | Inr s \<Rightarrow>
          (case insert_all ins rs of
             Inl e \<Rightarrow> Inl e
           | Inr ss \<Rightarrow> Inr (s # ss)))"

text \<open>
  The body of the loop over the posts of one file: the rows it inserts. The outer \<open>None\<close> is a
  call of \<open>chunk_text\<close> that does not return; \<open>Inl e\<close> is the exception that leaves \<open>embed\<close> or an
  insert. \<open>zip\<close> stops at the shorter of its two lists.
\<close>

definition post_rows :: "embeddings_create \<Rightarrow> post \<Rightarrow> (py_error + forum_row list) option" where
  "post_rows create p =
     (case chunk_text (post_content p) CHUNK_SIZE CHUNK_OVERLAP of
        None \<Rightarrow> None
      | Some chunks \<Rightarrow>
          if chunks = [] then Some (Inr [])
          else (case embed create chunks of
                  Inl e \<Rightarrow> Some (Inl e)
                | Inr embeddings \<Rightarrow>
                    Some (insert_all insert_forum_row (map (\<lambda>(chunk, emb).
                      (post_id p, number p, topic_id p, topic_title p, author p,
                       ''https://discourse.onlinedegree.iitm.ac.in/t/'' @ str_int (topic_id p)
                         @ ''/'' @ str_int (number p),
                       chunk, emb)) (zip chunks embeddings)))))"

fun process_forum_posts ::
  "embeddings_create \<Rightarrow> post list \<Rightarrow> (py_error + forum_row list) option" where
  "process_forum_posts create [] = Some (Inr [])"
| "process_forum_posts create (p # ps) =
     (case post_rows create p of
        None \<Rightarrow> None
      | Some (Inl e) \<Rightarrow> Some (Inl e)
      | Some (Inr rows) \<Rightarrow>
          (case process_forum_posts create ps of
             None \<Rightarrow> None
           | Some (Inl e) \<Rightarrow> Some (Inl e)
           | Some (Inr later) \<Rightarrow> Some (Inr (rows @ later))))"

text \<open>
  \<open>str.splitlines\<close>: a line ends at a line feed, a carriage return (with the line feed after
  it, when there is one), a vertical tab, a form feed, a file, group or record separator, or a
  next-line character; the text after the last line end is a line when it is not empty.
\<close>

definition is_linebreak :: "char \<Rightarrow> bool" where
  "is_linebreak c \<longleftrightarrow>
     (let n = of_char c :: nat
      in (10 \<le> n \<and> n \<le> 13) \<or> (28 \<le> n \<and> n \<le> 30) \<or> n = 133)"

fun splitlines_from :: "string \<Rightarrow> string \<Rightarrow> string list" where
  "splitlines_from cur [] = (if cur = [] then [] else [cur])"
| "splitlines_from cur [c] = (if is_linebreak c then [cur] else [cur @ [c]])"
| "splitlines_from cur (c # d # cs) =
     (if c = CHR 0x0D \<and> d = CHR 0x0A then cur # splitlines_from [] cs
      else if is_linebreak c then cur # splitlines_from [] (d # cs)
      else splitlines_from (cur @ [c]) (d # cs))"

definition splitlines :: "string \<Rightarrow> string list" where
  "splitlines s = splitlines_from [] s"

text \<open>\<open>s.split(sep, 1)\<close> for a separator of one character.\<close>

definition py_split1 :: "char \<Rightarrow> string \<Rightarrow> string list" where
  "py_split1 sep s =
     (if sep \<in> set s
      then [takeWhile (\<lambda>c. c \<noteq> sep) s, tl (dropWhile (\<lambda>c. c \<noteq> sep) s)]
      else [s])"

text \<open>\<open>os.path.basename\<close>: what follows the last slash.\<close>

definition basename :: "string \<Rightarrow> string" where
  "basename path = rev (takeWhile (\<lambda>c. c \<noteq> CHR ''/'') (rev path))"

text \<open>The value of an \<open>original_url:\<close> line: \<open>line.split(":", 1)[1].strip().strip('"')\<close>.\<close>

definition original_url_value :: "string \<Rightarrow> py_error + string" where
  "original_url_value line =
     (case py_split1 (CHR '':'') line of
        [_, v] \<Rightarrow> Inr (py_strip_chars [CHR 0x22] (py_strip v))
      | _ \<Rightarrow> Inl IndexError)"

text \<open>
  The loop \<open>for i in range(1, len(lines))\<close> over the lines after the first, with \<open>url\<close> as its
  state. It returns the last \<open>url\<close> and, when it met a closing delimiter, the lines after it
  (the new value of \<open>lines\<close>); without one \<open>lines\<close> stays as it is.
\<close>

fun front_matter :: "string option \<Rightarrow> string list \<Rightarrow> py_error + (string option \<times> string list option)" where
  "front_matter doc_url [] = Inr (doc_url, None)"
| "front_matter doc_url (l # ls) =
     (if startswith (py_strip l) ''original_url:''
      then (case original_url_value l of
              Inl e \<Rightarrow> Inl e
            | Inr v \<Rightarrow> front_matter (Some v) ls)
      else if py_strip l = ''---'' then Inr (doc_url, Some ls)
      else front_matter doc_url ls)"

text \<open>A row of \<open>course_chunks\<close> without its \<open>chunk_id\<close>: \<open>source_file\<close>, \<open>section_title\<close>, \<open>url\<close>,
  \<open>text\<close>, \<open>embedding\<close>.\<close>

type_synonym course_row = "string \<times> string \<times> string option \<times> string \<times> real list"

text \<open>The rows one buffer gives: \<open>chunk_text\<close>, \<open>embed\<close>, and an insert for every pair of
  \<open>zip(chunks, embeddings)\<close>. Every column of \<open>course_chunks\<close> is bound as text or as \<open>NULL\<close>, so
  these inserts raise nothing.\<close>

definition buffer_rows ::
  "embeddings_create \<Rightarrow> string \<Rightarrow> string \<Rightarrow> string option \<Rightarrow> string
     \<Rightarrow> (py_error + course_row list) option" where
  "buffer_rows create source_file section_title doc_url buffer =
     (case chunk_text buffer CHUNK_SIZE CHUNK_OVERLAP of
        None \<Rightarrow> None
      | Some chunks \<Rightarrow>
          (case embed create chunks of
             Inl e \<Rightarrow> Some (Inl e)
           | Inr embeddings \<Rightarrow>
               Some (Inr (map (\<lambda>(chunk, emb). (source_file, section_title, doc_url, chunk, emb))
                            (zip chunks embeddings)))))"

text \<open>
  The loop over the lines of the body, with \<open>section_title\<close>, \<open>buffer\<close> and the rows inserted so
  far as its state, and the flush of the last buffer after it. The buffer is emptied only where
  it is flushed.
\<close>

fun course_body ::
  "embeddings_create \<Rightarrow> string \<Rightarrow> string option \<Rightarrow> string \<Rightarrow> string \<Rightarrow> course_row list
     \<Rightarrow> string list \<Rightarrow> (py_error + course_row list) option" where
  "course_body create source_file doc_url section_title buffer rows [] =
     (if py_strip buffer \<noteq> []
      then (case buffer_rows create source_file section_title doc_url buffer of
              None \<Rightarrow> None
            | Some (Inl e) \<Rightarrow> Some (Inl e)
            | Some (Inr new) \<Rightarrow> Some (Inr (rows @ new)))
      else Some (Inr rows))"
| "course_body create source_file doc_url section_title buffer rows (line # lines) =
     (if startswith (py_strip line) ''#''
      then (if py_strip buffer \<noteq> []
            then (case buffer_rows create source_file section_title doc_url buffer of
                    None \<Rightarrow> None
                  | Some (Inl e) \<Rightarrow> Some (Inl e)
                  | Some (Inr new) \<Rightarrow>
                      course_body create source_file doc_url (py_strip (py_strip_chars ''# '' line))
                        [] (rows @ new) lines)
            else course_body create source_file doc_url (py_strip (py_strip_chars ''# '' line))
                   buffer rows lines)
      else course_body create source_file doc_url section_title (buffer @ line @ [newline]) rows lines)"

definition process_course_md ::
  "embeddings_create \<Rightarrow> string \<Rightarrow> string \<Rightarrow> (py_error + course_row list) option" where
  "process_course_md create filepath file_text =
     (let lines = splitlines file_text
      in if lines \<noteq> [] \<and> py_strip (hd lines) = ''---''
         then (case front_matter None (tl lines) of
                 Inl e \<Rightarrow> Some (Inl e)
               | Inr (doc_url, Some rest) \<Rightarrow> course_body create (basename filepath) doc_url [] [] [] rest
               | Inr (doc_url, None) \<Rightarrow> course_body create (basename filepath) doc_url [] [] [] lines)
         else course_body create (basename filepath) None [] [] [] lines)"

text \<open>
  The front-matter block as the description has it: the canonical URL of a block is the value
  of its last \<open>original_url:\<close> line, the text after the first colon with white space and then
  double quotes stripped, and there is none when the block has no such line.
\<close>

definition is_url_line :: "string \<Rightarrow> bool" where
  "is_url_line l \<longleftrightarrow> startswith (py_strip l) ''original_url:''"

definition block_url :: "string list \<Rightarrow> string option" where
  "block_url block =
     (case filter is_url_line block of
        [] \<Rightarrow> None
      | l # ls \<Rightarrow>
          Some (py_strip_chars [CHR 0x22]
                 (py_strip (tl (dropWhile (\<lambda>c. c \<noteq> CHR '':'') (last (l # ls)))))))"

definition row_url :: "course_row \<Rightarrow> string option" where
  "row_url r = fst (snd (snd r))"

text \<open>An embeddings endpoint that answers every text with the vector \<open>[1, 0]\<close>, and a document
  with a front-matter block and two headed sections.\<close>

definition unit_create :: embeddings_create where
  "unit_create texts = Inr (map (\<lambda>i. \<lparr>index = i, embedding = [1, 0]\<rparr>) [0 ..< length texts])"

definition example_document :: string where
  "example_document =
     ''---'' @ [newline] @ ''title: x'' @ [newline]
     @ ''original_url: '' @ [CHR 0x22] @ ''https://c.org/p'' @ [CHR 0x22] @ [newline]
     @ ''---'' @ [newline]
     @ ''# Intro'' @ [newline] @ ''hello'' @ [newline]
     @ ''## Next'' @ [newline] @ ''world'' @ [newline]"

text \<open>Two more endpoints, one that answers any request with a single vector and one whose
  call fails, and a post long enough for two chunks.\<close>

definition one_vector_create :: embeddings_create where
  "one_vector_create texts = Inr [\<lparr>index = 0, embedding = [1, 0]\<rparr>]"

definition failing_create :: embeddings_create where
  "failing_create texts = Inl (RemoteError ''connection refused'')"

definition long_post :: post where
  "long_post = \<lparr>post_id = 11, number = 3, topic_id = 42, topic_title = ''t'', author = ''u'',
                 post_content = replicate 700 (CHR ''a'')\<rparr>"

text \<open>A post whose \<open>post_id\<close> is one beyond SQLite's largest integer, and a buffer of one
  line.\<close>

definition huge_post :: post where
  "huge_post = long_post\<lparr>post_id := 2 ^ 63\<rparr>"

definition example_buffer :: string where
  "example_buffer = ''hello'' @ [newline]"

text \<open>The chunk and the vector stored in a row of \<open>forum_chunks\<close> and of \<open>course_chunks\<close>, and
  whether the identifiers of a post fit SQLite's integers.\<close>

definition stored_pair :: "forum_row \<Rightarrow> string \<times> real list" where
  "stored_pair r = (case r of (_, _, _, _, _, _, chunk, emb) \<Rightarrow> (chunk, emb))"

definition course_stored_pair :: "course_row \<Rightarrow> string \<times> real list" where
  "course_stored_pair r = (case r of (_, _, _, chunk, emb) \<Rightarrow> (chunk, emb))"

definition identifiers_fit :: "post \<Rightarrow> bool" where
  "identifiers_fit p \<longleftrightarrow>
     sqlite_integer (post_id p) \<and> sqlite_integer (number p) \<and> sqlite_integer (topic_id p)"

section \<open>The answer synthesizer and the query endpoint\<close>

text \<open>\<open>sep.join(xs)\<close> and \<open>s.capitalize()\<close>; the latter on letters below 128, which is all the
  two source names \<open>forum\<close> and \<open>course\<close> have.\<close>

fun py_join :: "string \<Rightarrow> string list \<Rightarrow> string" where
  "py_join sep [] = []"
| "py_join sep [x] = x"
| "py_join sep (x # y # ys) = x @ sep @ py_join sep (y # ys)"

definition ascii_upper :: "char \<Rightarrow> char" where
  "ascii_upper c =
     (if 97 \<le> (of_char c :: nat) \<and> (of_char c :: nat) \<le> 122
      then char_of ((of_char c :: nat) - 32) else c)"

definition ascii_lower :: "char \<Rightarrow> char" where
  "ascii_lower c =
     (if 65 \<le> (of_char c :: nat) \<and> (of_char c :: nat) \<le> 90
      then char_of ((of_char c :: nat) + 32) else c)"

definition capitalize :: "string \<Rightarrow> string" where
  "capitalize s = (case s of [] \<Rightarrow> [] | c # cs \<Rightarrow> ascii_upper c # map ascii_lower cs)"

text \<open>The prompt of \<open>generate_llm_answer\<close>: the f-string of lines 105 to 133, cut at its three
  placeholders.\<close>

definition prompt_head :: string where
  "prompt_head =
     [newline] @ ''You are not a conversational assistant. You are a compliance checker.'' @
     [newline] @ [newline] @
     ''DO NOT answer based on general knowledge or what the user wants to hear.'' @ [newline] @
     [newline] @
     ''ONLY answer based on the course materials provided below. Do NOT infer or '' @
     ''inject anything. If the material does not clearly answer the question, reply with:'' @
     [newline] @ [newline] @ [CHR 0x22] @ ''I don'' @ [CHR 0x27] @
     ''t have enough information to answer this question.'' @ [CHR 0x22] @ [newline] @
     [newline] @ ''---'' @ [newline] @ [newline]"

definition prompt_before_context :: string where
  "prompt_before_context = ''Context:'' @ [newline]"

definition prompt_before_question :: string where
  "prompt_before_question =
     [newline] @ [newline] @ ''---'' @ [newline] @ [newline] @ ''User Question:'' @ [newline]"

definition prompt_tail :: string where
  "prompt_tail =
     [newline] @ [newline] @
     ''Based ONLY on the context above, what does the course recommend?'' @ [newline] @
     [newline] @ ''Format your response like this:'' @ [newline] @ [newline] @
     ''1. [Factual answer only]'' @ [newline] @ [newline] @ ''Sources:'' @ [newline] @
     ''1. URL: [exact URL], Text: [short quote from that page]'' @ [newline] @
     ''2. URL: [exact URL], Text: [short quote from that page]'' @ [newline]"

text \<open>How an f-string writes \<open>chunk['url']\<close>.\<close>

definition format_url :: "string option \<Rightarrow> string" where
  "format_url u = (case u of None \<Rightarrow> ''None'' | Some v \<Rightarrow> v)"

definition context_of :: "chunk list \<Rightarrow> string" where
  "context_of chunks =
     py_join [newline, newline]
       (map (\<lambda>c. capitalize (source c) @ '' (URL: '' @ format_url (url c) @ ''): ''
                  @ py_prefix (content c) 1500) chunks)"

definition build_prompt :: "string \<Rightarrow> chunk list \<Rightarrow> string option \<Rightarrow> string" where
  "build_prompt question chunks extracted_text =
     (let formatted_extracted_text =
            (case extracted_text of
               None \<Rightarrow> []
             | Some t \<Rightarrow>
                 if t = [] then []
                 else ''OCR-extracted Text:'' @ [newline] @ t @ [newline, newline])
      in prompt_head @ formatted_extracted_text @ prompt_before_context @ context_of chunks
           @ prompt_before_question @ question @ prompt_tail)"

text \<open>
  The request sent to the chat-completions endpoint, and what comes back: the status, the body
  as text, and \<open>result["choices"][0]["message"]["content"]\<close>, which is \<open>None\<close> when the body is
  not JSON of that shape. The endpoint is a parameter \<open>post\<close> of the model.
\<close>

record payload =
  model :: string
  system_message :: string
  user_message :: string
  temperature :: real

record http_reply =
  status :: int
  body :: string
  message_content :: "string option"

definition request_payload :: "string \<Rightarrow> payload" where
  "request_payload prompt =
     \<lparr>model = ''gpt-4o-mini'',
      system_message =
        ''You are a helpful assistant that provides accurate answers based only on the ''
        @ ''provided context. Always include sources in your response with exact URLs.'',
      user_message = prompt,
      temperature = 0.1\<rparr>"

text \<open>\<open>generate_llm_answer\<close> returns its result together with the requests it has sent.\<close>

definition generate_llm_answer ::
  "(payload \<Rightarrow> http_reply) \<Rightarrow> string \<Rightarrow> chunk list \<Rightarrow> string option
     \<Rightarrow> (py_error + string) \<times> payload list" where
  "generate_llm_answer post question chunks extracted_text =
     (let prompt = build_prompt question chunks extracted_text;
          request = request_payload prompt;
          resp = post request
      in (if status resp \<noteq> 200 then Inl (HTTPException (status resp) (body resp))
          else (case message_content resp of
                  None \<Rightarrow> Inl KeyError
                | Some c \<Rightarrow> Inr c),
          [request]))"

text \<open>
  \<open>llm_output.split("Sources:", 1)\<close> when the marker is in the output: what stands before its
  first occurrence and what stands after it.
\<close>

fun split_marker :: "string \<Rightarrow> string \<Rightarrow> string \<Rightarrow> (string \<times> string) option" where
  "split_marker marker seen [] =
     (case after_prefix marker [] of
        Some rest \<Rightarrow> Some (seen, rest)
      | None \<Rightarrow> None)"
| "split_marker marker seen (c # cs) =
     (case after_prefix marker (c # cs) of
        Some rest \<Rightarrow> Some (seen, rest)
      | None \<Rightarrow> split_marker marker (seen @ [c]) cs)"

definition split_sources :: "string \<Rightarrow> string \<times> string" where
  "split_sources llm_output =
     (case split_marker ''Sources:'' [] llm_output of
        Some (answer_part, sources_part) \<Rightarrow> (answer_part, sources_part)
      | None \<Rightarrow> (llm_output, []))"

text \<open>
  The regular expression \<^verbatim>\<open>URL:\s*(\S+),\s*Text:\s*(.*)\<close>, matched at the start of a string as
  the backtracking matcher does. A greedy \<open>\s*\<close> takes all the white space there is, line
  breaks included, and giving some of it back never helps here: what follows must start with a
  character that is not white space, or is \<open>(.*)\<close>, which matches anything. \<open>(\S+)\<close> first takes
  the whole run of characters that are not white space and then gives them back one at a time
  until the rest of the pattern matches. \<open>(.*)\<close> runs to the next line feed.
\<close>

text \<open>\<^verbatim>\<open>,\s*Text:\s*(.*)\<close> at the start of \<open>r\<close>: the second group and what follows the match.\<close>

definition match_after_token :: "string \<Rightarrow> (string \<times> string) option" where
  "match_after_token r =
     (case r of
        [] \<Rightarrow> None
      | c # r1 \<Rightarrow>
          if c \<noteq> CHR '','' then None
          else (case after_prefix ''Text:'' (dropWhile is_space r1) of
                  None \<Rightarrow> None
                | Some r2 \<Rightarrow>
                    (let r3 = dropWhile is_space r2
                     in Some (takeWhile (\<lambda>c. c \<noteq> newline) r3,
                              dropWhile (\<lambda>c. c \<noteq> newline) r3))))"

text \<open>\<^verbatim>\<open>(\S+)\<close> with a token of \<open>n\<close> characters, then of \<open>n - 1\<close>, down to one.\<close>

fun match_token :: "nat \<Rightarrow> string \<Rightarrow> (string \<times> string \<times> string) option" where
  "match_token 0 r = None"
| "match_token (Suc n) r =
     (case match_after_token (drop (Suc n) r) of
        Some (t, rest) \<Rightarrow> Some (take (Suc n) r, t, rest)
      | None \<Rightarrow> match_token n r)"

definition match_at :: "string \<Rightarrow> (string \<times> string \<times> string) option" where
  "match_at s =
     (case after_prefix ''URL:'' s of
        None \<Rightarrow> None
      | Some r \<Rightarrow>
          (let r1 = dropWhile is_space r
           in match_token (length (takeWhile (\<lambda>c. \<not> is_space c) r1)) r1))"

lemma after_prefix_length: "after_prefix p s = Some r \<Longrightarrow> length s = length p + length r"
  by (induction p s rule: after_prefix.induct) (auto split: if_splits)

lemma match_after_token_length: "match_after_token r = Some (t, rest) \<Longrightarrow> length rest < length r"
proof -
  have dw: "length (dropWhile P xs) \<le> length xs" for P and xs :: string
    by (induction xs) auto
  assume "match_after_token r = Some (t, rest)"
  then obtain c r1 r2 where r: "r = c # r1"
    and p: "after_prefix ''Text:'' (dropWhile is_space r1) = Some r2"
    and rest: "rest = dropWhile (\<lambda>c. c \<noteq> newline) (dropWhile is_space r2)"
    by (auto simp: match_after_token_def Let_def split: list.splits if_splits option.splits)
  from after_prefix_length [OF p] have "length r2 \<le> length (dropWhile is_space r1)" by simp
  also have "\<dots> \<le> length r1" by (rule dw)
  finally have "length r2 \<le> length r1" .
  moreover have "length rest \<le> length r2"
    unfolding rest using dw [of "\<lambda>c. c \<noteq> newline" "dropWhile is_space r2"] dw [of is_space r2]
    by linarith
  ultimately show ?thesis by (simp add: r)
qed

lemma match_token_length: "match_token n r = Some (u, t, rest) \<Longrightarrow> length rest < length r"
proof (induction n)
  case 0
  then show ?case by simp
next
  case (Suc n)
  show ?case
  proof (cases "match_after_token (drop (Suc n) r)")
    case None
    with Suc show ?thesis by simp
  next
    case (Some m)
    with Suc.prems have "match_after_token (drop (Suc n) r) = Some (t, rest)"
      by (cases m) simp
    from match_after_token_length [OF this] show ?thesis by simp
  qed
qed

lemma match_at_length: "match_at s = Some (u, t, rest) \<Longrightarrow> length rest < length s"
proof -
  have dw: "length (dropWhile P xs) \<le> length xs" for P and xs :: string
    by (induction xs) auto
  assume "match_at s = Some (u, t, rest)"
  then obtain r where p: "after_prefix ''URL:'' s = Some r"
    and m: "match_token (length (takeWhile (\<lambda>c. \<not> is_space c) (dropWhile is_space r)))
              (dropWhile is_space r) = Some (u, t, rest)"
    by (auto simp: match_at_def Let_def split: option.splits)
  from match_token_length [OF m] dw [of is_space r] after_prefix_length [OF p]
  show ?thesis by simp
qed

text \<open>\<open>re.finditer\<close>: the pattern is tried at every position from left to right, and after a
  match the search goes on where the match ended. Each match gives its two groups.\<close>

function finditer :: "string \<Rightarrow> (string \<times> string) list" where
  "finditer [] = []"
| "finditer (c # cs) =
     (case match_at (c # cs) of
        Some (u, t, rest) \<Rightarrow> (u, t) # finditer rest
      | None \<Rightarrow> finditer cs)"
  by pat_completeness auto
termination
  by (relation "measure length") (auto dest: match_at_length)

record link =
  link_url :: string
  link_text :: string

definition parse_links :: "string \<Rightarrow> link list" where
  "parse_links sources_part =
     map (\<lambda>(u, t). \<lparr>link_url = py_strip u, link_text = py_strip t\<rparr>) (finditer sources_part)"

record query_response =
  answer :: string
  links :: "link list"

definition parse_response :: "string \<Rightarrow> query_response" where
  "parse_response llm_output =
     (case split_sources llm_output of
        (answer_part, sources_part) \<Rightarrow>
          \<lparr>answer = py_strip answer_part, links = parse_links sources_part\<rparr>)"

record query_request =
  question :: string
  image :: "string option"

definition refusal :: query_response where
  "refusal = \<lparr>answer = ''I couldn'' @ [CHR 0x27] @ ''t find relevant content.'', links = []\<rparr>"

text \<open>
  \<open>query_virtual_ta\<close>, with the OCR adapter, the embedding call, the rows of the two tables and
  the chat endpoint as parameters. It returns the response, or the exception that leaves it,
  together with the requests sent to the chat endpoint.
\<close>

definition query_virtual_ta ::
  "(string \<Rightarrow> string) \<Rightarrow> (string \<Rightarrow> py_error + real list) \<Rightarrow> row list \<Rightarrow> row list
     \<Rightarrow> (payload \<Rightarrow> http_reply) \<Rightarrow> query_request
     \<Rightarrow> (py_error + query_response) \<times> payload list" where
  "query_virtual_ta ocr get_embedding forum_chunks course_chunks post req =
     (let extracted_text =
            (case image req of
               None \<Rightarrow> None
             | Some img \<Rightarrow> if img = [] then None else Some (ocr img))
      in case retrieve_similar_chunks get_embedding forum_chunks course_chunks (question req)
                MAX_RESULTS of
           Inl e \<Rightarrow> (Inl e, [])
         | Inr chunks \<Rightarrow>
             if chunks = [] then (Inr refusal, [])
             else (case generate_llm_answer post (question req) chunks extracted_text of
                     (Inl e, sent) \<Rightarrow> (Inl e, sent)
                   | (Inr llm_output, sent) \<Rightarrow> (Inr (parse_response llm_output), sent)))"

text \<open>
  The citation lines as the description has them: the sources portion is read line by line,
  a line in which the pattern matches gives one citation, the first match in it, and the other
  lines give none.
\<close>

definition line_citation :: "string \<Rightarrow> (string \<times> string) option" where
  "line_citation l = (case finditer l of [] \<Rightarrow> None | m # _ \<Rightarrow> Some m)"

definition line_citations :: "string \<Rightarrow> link list" where
  "line_citations sources_part =
     map (\<lambda>(u, t). \<lparr>link_url = py_strip u, link_text = py_strip t\<rparr>)
       (List.map_filter line_citation (py_split newline sources_part))"

text \<open>A line that ends, white space aside, with \<open>URL:\<close>, with a comma or with \<open>Text:\<close>.\<close>

definition ends_with :: "string \<Rightarrow> string \<Rightarrow> bool" where
  "ends_with s p \<longleftrightarrow> startswith (rev s) (rev p)"

definition open_ended :: "string \<Rightarrow> bool" where
  "open_ended l \<longleftrightarrow>
     (let t = rev (dropWhile is_space (rev l))
      in ends_with t ''URL:'' \<or> ends_with t '','' \<or> ends_with t ''Text:'')"

text \<open>Example inputs: the answer of the description's citation example, an answer whose
  citation is broken over two lines, fixed stand-ins for the remote calls, and a request.\<close>

definition example_output :: string where
  "example_output =
     ''1. Use podman.'' @ [newline] @ [newline] @ ''Sources:'' @ [newline]
     @ ''1. URL: http://a, Text: '' @ [CHR 0x22] @ ''x'' @ [CHR 0x22] @ [newline]
     @ ''2. URL: http://b, Text: '' @ [CHR 0x22] @ ''y'' @ [CHR 0x22]"

definition broken_sources :: string where
  "broken_sources = [newline] @ ''1. URL: http://a,'' @ [newline] @ ''Text: y''"

definition unit_embedding :: "string \<Rightarrow> py_error + real list" where
  "unit_embedding q = Inr [1, 0]"

definition no_ocr :: "string \<Rightarrow> string" where
  "no_ocr img = []"

definition canned_post :: "payload \<Rightarrow> http_reply" where
  "canned_post request = \<lparr>status = 200, body = [], message_content = Some example_output\<rparr>"

definition example_request :: query_request where
  "example_request = \<lparr>question = ''Docker or podman?'', image = None\<rparr>"

text \<open>The sources portion of \<open>example_output\<close>.\<close>

definition example_sources :: string where
  "example_sources =
     [newline] @ ''1. URL: http://a, Text: '' @ [CHR 0x22] @ ''x'' @ [CHR 0x22] @ [newline]
     @ ''2. URL: http://b, Text: '' @ [CHR 0x22] @ ''y'' @ [CHR 0x22]"

text \<open>The three places of the pattern after which white space is allowed, and a string none
  of whose tails is one of them followed by white space only.\<close>

definition pattern_keys :: "string set" where
  "pattern_keys = {''URL:'', '','', ''Text:''}"

definition closed_tail :: "string \<Rightarrow> bool" where
  "closed_tail a \<longleftrightarrow>
     (\<forall>pre k w. a = pre @ k @ w \<and> k \<in> pattern_keys \<longrightarrow> \<not> list_all is_space w)"

section \<open>Termination of the segmenter\<close>

lemma chunk_text_loop_returns:
  assumes "overlap < chunk_size"
  shows "\<exists>r. chunk_text_loop text chunk_size overlap chunks start = Some r"
  using assms
proof (induction "nat (int (length text) - start)" arbitrary: start chunks rule: less_induct)
  case less
  show ?case
  proof (cases "start < int (length text)")
    case False
    then show ?thesis
      by (subst chunk_text_loop.simps) simp
  next
    case True
    let ?next = "start + (chunk_size - overlap)"
    from True less.prems
    have "nat (int (length text) - ?next) < nat (int (length text) - start)"
      by linarith
    from less.hyps [OF this less.prems]
    have "\<exists>r. chunk_text_loop text chunk_size overlap cs ?next = Some r" for cs
      by blast
    with True show ?thesis
      by (subst chunk_text_loop.simps) (simp add: Let_def)
  qed
qed

text \<open>
  C7. With a window longer than the overlap (\<open>L > O\<close>, a strictly positive stride) the
  sliding-window loop of the segmenter ends and returns a list of chunks, for every input
  string.
\<close>

theorem chunk_text_terminates:
  "overlap < chunk_size \<Longrightarrow> \<exists>chunks. chunk_text text chunk_size overlap = Some chunks"
  unfolding chunk_text_def by (rule chunk_text_loop_returns)

theorem chunk_text_terminates_witness:
  "CHUNK_OVERLAP < CHUNK_SIZE \<and> (\<exists>chunks. chunk_text ''abc'' CHUNK_SIZE CHUNK_OVERLAP = Some chunks)"
proof -
  have h: "CHUNK_OVERLAP < CHUNK_SIZE"
    by (simp add: CHUNK_OVERLAP_def CHUNK_SIZE_def)
  from h chunk_text_terminates [OF h, of "''abc''"] show ?thesis
    by simp
qed

section \<open>The windows of the segmenter\<close>

lemma window_index_less:
  assumes "0 < s"
  shows "i < (n + s - 1) div s \<longleftrightarrow> i * s < (n::nat)"
proof -
  have "i < (n + s - 1) div s \<longleftrightarrow> Suc i \<le> (n + s - 1) div s" by auto
  also have "\<dots> \<longleftrightarrow> Suc i * s \<le> n + s - 1"
    using assms by (simp only: less_eq_div_iff_mult_less_eq)
  also have "\<dots> \<longleftrightarrow> i * s < n" using assms by (cases n) auto
  finally show ?thesis .
qed

lemma py_slice_from_nat:
  assumes "0 < len" "a < length xs"
  shows "py_slice xs (int a) (int a + len) = take (nat len) (drop a xs)"
proof -
  have a: "py_bound (length xs) (int a) = a"
    using assms by (simp add: py_bound_def)
  have "\<not> int a + len < 0" using assms by simp
  moreover have "nat (int a + len) = a + nat len" using assms by (simp add: nat_add_distrib)
  ultimately have b: "py_bound (length xs) (int a + len) = min (a + nat len) (length xs)"
    by (simp only: py_bound_def if_False)
  have "0 < nat len" using assms by simp
  with assms(2) have lt: "a < min (a + nat len) (length xs)" by simp
  have "take (min (a + nat len) (length xs) - a) (drop a xs) = take (nat len) (drop a xs)"
    by (cases "a + nat len \<le> length xs") (simp_all add: min_def)
  with a b lt show ?thesis
    by (simp add: py_slice_def Let_def)
qed

lemma chunk_text_loop_from:
  assumes s: "0 < s" "chunk_size - overlap = int s" and len: "0 < chunk_size"
  shows "chunk_text_loop text chunk_size overlap chunks (int (i * s))
         = Some (chunks @ filter (\<lambda>c. c \<noteq> [])
              (map (\<lambda>j. py_strip (take (nat chunk_size) (drop (j * s) text)))
                 [i ..< (length text + s - 1) div s]))"
proof (induction "(length text + s - 1) div s - i" arbitrary: i chunks)
  case 0
  then have ge: "(length text + s - 1) div s \<le> i" by simp
  then have "\<not> i * s < length text"
    using window_index_less [OF s(1), of i "length text"] by simp
  then have "\<not> int (i * s) < int (length text)"
    using of_nat_less_iff [where ?'a = int, of "i * s" "length text"] by blast
  with ge show ?case
    by (subst chunk_text_loop.simps) (simp only: if_False upt_conv_Nil[OF ge], simp)
next
  case (Suc k)
  then have lt: "i < (length text + s - 1) div s" by simp
  then have in_text: "i * s < length text"
    using window_index_less [OF s(1), of i "length text"] by simp
  then have cond: "int (i * s) < int (length text)"
    using of_nat_less_iff [where ?'a = int, of "i * s" "length text"] by blast
  have step: "int (i * s) + (chunk_size - overlap) = int (Suc i * s)"
    using s by (simp add: algebra_simps)
  from Suc.hyps(2) have k: "k = (length text + s - 1) div s - Suc i" by simp
  note IH = Suc.hyps(1) [OF k]
  from lt have up: "[i ..< (length text + s - 1) div s] = i # [Suc i ..< (length text + s - 1) div s]"
    by (simp add: upt_conv_Cons)
  show ?case
    apply (subst chunk_text_loop.simps)
    apply (simp only: cond if_True step Let_def py_slice_from_nat [OF len in_text] IH up)
    apply simp
    done
qed

lemma dropWhile_strip_left:
  "dropWhile P (rev (dropWhile P (rev (dropWhile P xs)))) = rev (dropWhile P (rev (dropWhile P xs)))"
proof -
  let ?ys = "dropWhile P xs"
  let ?zs = "rev (dropWhile P (rev ?ys))"
  have split: "?ys = ?zs @ rev (takeWhile P (rev ?ys))"
    by (metis rev_append rev_rev_ident takeWhile_dropWhile_id)
  show ?thesis
  proof (cases "?zs = []")
    case True
    show ?thesis by (simp only: True dropWhile.simps)
  next
    case False
    with split have "?ys \<noteq> []" by (metis append_is_Nil_conv)
    then have "\<not> P (hd ?ys)" by (rule hd_dropWhile)
    moreover from False split have "hd ?ys = hd ?zs" by (metis hd_append2)
    ultimately show ?thesis by (simp add: dropWhile_eq_self_iff)
  qed
qed

lemma py_strip_idem: "py_strip (py_strip s) = py_strip s"
  by (simp add: py_strip_def dropWhile_strip_left)

lemma length_py_strip: "length (py_strip s) \<le> length s"
proof -
  have "length (dropWhile P xs) \<le> length xs" for P and xs :: string
    by (induction xs) auto
  from this [of is_space "rev (dropWhile is_space s)"] this [of is_space s]
  show ?thesis by (simp add: py_strip_def)
qed

text \<open>
  C6. For every text and every window length \<open>L\<close> and overlap \<open>O\<close> with \<open>L > O \<ge> 0\<close>, the
  segmenter returns the trimmed windows \<open>T[i * (L - O) : i * (L - O) + L]\<close> in ascending order
  of start position, the windows that are empty after trimming left out. Every returned chunk
  is at most \<open>L\<close> long, is not empty and is already trimmed. What a window holds from its
  position \<open>L - O\<close> on is the start of the next window, its first \<open>O\<close> characters, and where the
  earlier window is full that shared part is exactly \<open>O\<close> characters long.
\<close>

theorem chunk_text_windows:
  assumes "0 \<le> overlap" and "overlap < chunk_size"
  shows "chunk_text text chunk_size overlap
           = Some (filter (\<lambda>c. c \<noteq> [])
               (map (\<lambda>i. py_strip (window text chunk_size overlap i))
                  [0 ..< window_count text chunk_size overlap]))
         \<and> (\<forall>chunks. chunk_text text chunk_size overlap = Some chunks \<longrightarrow>
               (\<forall>c \<in> set chunks. length c \<le> nat chunk_size \<and> c \<noteq> [] \<and> py_strip c = c))
         \<and> (\<forall>i. Suc i < window_count text chunk_size overlap \<longrightarrow>
               drop (nat (chunk_size - overlap)) (window text chunk_size overlap i)
                 = take (nat overlap) (window text chunk_size overlap (Suc i)))
         \<and> (\<forall>i. Suc i < window_count text chunk_size overlap
                  \<and> length (window text chunk_size overlap i) = nat chunk_size \<longrightarrow>
               length (take (nat overlap) (window text chunk_size overlap (Suc i))) = nat overlap)"
proof -
  let ?s = "nat (chunk_size - overlap)"
  let ?k = "window_count text chunk_size overlap"
  let ?out = "filter (\<lambda>c. c \<noteq> [])
     (map (\<lambda>i. py_strip (window text chunk_size overlap i)) [0 ..< ?k])"
  from assms have s: "0 < ?s" "chunk_size - overlap = int ?s" and len: "0 < chunk_size"
    by simp_all
  have closed: "chunk_text text chunk_size overlap = Some ?out"
    using chunk_text_loop_from [OF s len, of "text" "[]" 0]
    by (simp add: chunk_text_def window_def window_count_def)
  have bound: "length c \<le> nat chunk_size \<and> c \<noteq> [] \<and> py_strip c = c" if "c \<in> set ?out" for c
  proof -
    from that obtain i where c: "c = py_strip (window text chunk_size overlap i)" and "c \<noteq> []"
      by auto
    have "length c \<le> length (window text chunk_size overlap i)"
      unfolding c by (rule length_py_strip)
    also have "\<dots> \<le> nat chunk_size" by (simp add: window_def)
    finally show ?thesis using \<open>c \<noteq> []\<close> by (simp add: c py_strip_idem)
  qed
  have sum: "nat chunk_size - ?s = nat overlap" "min (nat overlap) (nat chunk_size) = nat overlap"
    using assms by simp_all
  have shared: "drop ?s (window text chunk_size overlap i)
                = take (nat overlap) (window text chunk_size overlap (Suc i))" for i
    by (simp add: window_def drop_take sum add.commute)
  have exact: "length (take (nat overlap) (window text chunk_size overlap (Suc i))) = nat overlap"
    if "length (window text chunk_size overlap i) = nat chunk_size" for i
  proof -
    have "length (drop ?s (window text chunk_size overlap i)) = nat overlap"
      using that sum by simp
    then show ?thesis by (simp only: shared)
  qed
  have all_chunks: "\<forall>chunks. chunk_text text chunk_size overlap = Some chunks \<longrightarrow>
     (\<forall>c \<in> set chunks. length c \<le> nat chunk_size \<and> c \<noteq> [] \<and> py_strip c = c)"
  proof (intro allI impI ballI)
    fix chunks c
    assume "chunk_text text chunk_size overlap = Some chunks" and "c \<in> set chunks"
    with closed have "c \<in> set ?out" by simp
    then show "length c \<le> nat chunk_size \<and> c \<noteq> [] \<and> py_strip c = c"
      by (rule bound)
  qed
  from shared exact have overlaps:
    "(\<forall>i. Suc i < ?k \<longrightarrow>
        drop ?s (window text chunk_size overlap i)
          = take (nat overlap) (window text chunk_size overlap (Suc i)))
     \<and> (\<forall>i. Suc i < ?k \<and> length (window text chunk_size overlap i) = nat chunk_size \<longrightarrow>
        length (take (nat overlap) (window text chunk_size overlap (Suc i))) = nat overlap)"
    by blast
  from closed all_chunks overlaps show ?thesis
    by (intro conjI) blast+
qed


lemma chunk_text_example_windows:
  "filter (\<lambda>c. c \<noteq> [])
     (map (\<lambda>i. py_strip (window ''ab  cd      ef'' 4 1 i))
        [0 ..< window_count ''ab  cd      ef'' 4 1]) = [''ab'', ''cd'', ''e'', ''ef'']"
  by code_simp

theorem chunk_text_windows_witness:
  "(0::int) \<le> 1 \<and> (1::int) < 4
   \<and> chunk_text ''ab  cd      ef'' 4 1 = Some [''ab'', ''cd'', ''e'', ''ef'']
   \<and> drop (nat (4 - 1)) (window ''ab  cd      ef'' 4 1 0)
       = take (nat 1) (window ''ab  cd      ef'' 4 1 (Suc 0))
   \<and> length (take (nat 1) (window ''ab  cd      ef'' 4 1 (Suc 0))) = nat 1"
proof -
  have h: "(0::int) \<le> 1" "(1::int) < 4" by simp_all
  have k: "Suc 0 < window_count ''ab  cd      ef'' 4 1" by code_simp
  have full: "length (window ''ab  cd      ef'' 4 1 0) = nat 4" by code_simp
  note T = chunk_text_windows [OF h, of "''ab  cd      ef''"]
  note closed = T [THEN conjunct1]
  note shared = T [THEN conjunct2, THEN conjunct2, THEN conjunct1, rule_format, of 0, OF k]
  note exact = T [THEN conjunct2, THEN conjunct2, THEN conjunct2, rule_format, of 0,
    OF conjI [OF k full]]
  from closed have "chunk_text ''ab  cd      ef'' 4 1 = Some [''ab'', ''cd'', ''e'', ''ef'']"
    by (simp only: chunk_text_example_windows)
  with h shared exact show ?thesis
    by (intro conjI)
qed

section \<open>Ranking\<close>

lemma rank_key_le:
  "rank_key a \<le> rank_key b \<longleftrightarrow>
     similarity b < similarity a \<or> (similarity a = similarity b \<and> post_number b \<le> post_number a)"
  by (auto simp: rank_key_def less_eq_prod_def)

lemma sorted_wrt_rank:
  "sorted_wrt (\<lambda>a b. rank_key a \<le> rank_key b) (sort_key rank_key xs)"
  using sorted_sort_key [of rank_key xs] by (simp add: sorted_map)

lemma length_py_prefix: "0 \<le> k \<Longrightarrow> length (py_prefix xs k) \<le> nat k"
  by (simp add: py_prefix_def py_bound_def)

lemma py_prefix_nonneg: "0 \<le> k \<Longrightarrow> py_prefix xs k = take (nat k) xs"
  by (simp add: py_prefix_def py_bound_def min_def)

text \<open>
  C2. The output of \<open>retrieve\<close> is ordered by similarity, highest first, and among equal
  similarities by \<open>post_number\<close> (the tie-break key), highest first: of two results with
  different similarities the one with the higher similarity comes first whatever the keys are.
  For a \<open>top_k\<close> that is not negative the output is the first \<open>top_k\<close> entries of the sorted list
  of all surviving chunks, so it has at most \<open>top_k\<close> entries, at most 50 with the default.
\<close>

theorem retrieve_ranked:
  "sorted_wrt (\<lambda>a b. similarity b < similarity a
                  \<or> (similarity a = similarity b \<and> post_number b \<le> post_number a))
     (retrieve question_embedding forum_chunks course_chunks top_k)
   \<and> (0 \<le> top_k \<longrightarrow>
        length (retrieve question_embedding forum_chunks course_chunks top_k) \<le> nat top_k
        \<and> retrieve question_embedding forum_chunks course_chunks top_k
            = take (nat top_k)
                (sort_key rank_key (all_chunks question_embedding forum_chunks course_chunks)))
   \<and> length (retrieve question_embedding forum_chunks course_chunks MAX_RESULTS) \<le> 50"
proof -
  let ?all = "all_chunks question_embedding forum_chunks course_chunks"
  have "sorted_wrt (\<lambda>a b. rank_key a \<le> rank_key b) (take n (sort_key rank_key ?all))" for n
    using sorted_wrt_rank by (rule sorted_wrt_take)
  then have ordered: "sorted_wrt (\<lambda>a b. similarity b < similarity a
                  \<or> (similarity a = similarity b \<and> post_number b \<le> post_number a))
     (retrieve question_embedding forum_chunks course_chunks top_k)"
    by (simp only: retrieve_def py_prefix_def rank_key_le)
  have "length (retrieve question_embedding forum_chunks course_chunks MAX_RESULTS) \<le> nat MAX_RESULTS"
    unfolding retrieve_def by (rule length_py_prefix) (simp add: MAX_RESULTS_def)
  then have dflt: "length (retrieve question_embedding forum_chunks course_chunks MAX_RESULTS) \<le> 50"
    by (simp add: MAX_RESULTS_def)
  from ordered dflt show ?thesis
    by (simp add: retrieve_def length_py_prefix py_prefix_nonneg)
qed


section \<open>Concrete rows\<close>

lemma cosine_unit_same: "cosine_similarity [1, 0] [1, 0] = Inr (Some 1)"
  by (simp add: cosine_similarity_def linalg_norm_def dot_def)

lemma cosine_unit_orthogonal: "cosine_similarity [1, 0] [0, 1] = Inr (Some 0)"
  by (simp add: cosine_similarity_def linalg_norm_def dot_def)

lemma post_number_examples:
  "post_number_of (Some ''https://d.org/t/5/2'') = Inr 2"
  "post_number_of (Some ''https://d.org/t/5/7/'') = Inr 7"
  "post_number_of (Some ''https://c.org/page'') = Inr 0"
  "post_number_of None = Inl AttributeError"
  by code_simp+

lemma row_chunk_examples:
  "row_chunk [1, 0] ''forum'' (Some ''https://d.org/t/5/2'', ''a'', Some [1, 0])
     = Inr (Some \<lparr>source = ''forum'', content = ''a'', url = Some ''https://d.org/t/5/2'',
                  similarity = 1, post_number = 2\<rparr>)"
  "row_chunk [1, 0] ''forum'' (Some ''https://d.org/t/5/7/'', ''b'', Some [1, 0])
     = Inr (Some \<lparr>source = ''forum'', content = ''b'', url = Some ''https://d.org/t/5/7/'',
                  similarity = 1, post_number = 7\<rparr>)"
  "row_chunk [1, 0] ''forum'' (Some ''https://d.org/t/5/9'', ''low'', Some [0, 1]) = Inr None"
  "row_chunk [1, 0] ''course'' (Some ''https://c.org/page'', ''d'', Some [1, 0])
     = Inr (Some \<lparr>source = ''course'', content = ''d'', url = Some ''https://c.org/page'',
                  similarity = 1, post_number = 0\<rparr>)"
  "row_chunk [1, 0] ''course'' (None, ''c'', Some [1, 0]) = Inl AttributeError"
  "row_chunk [1, 0] ''course'' (Some ''https://c.org/x'', ''e'', Some [1, 0, 0]) = Inr None"
  by (simp_all add: row_chunk_def cosine_unit_same cosine_unit_orthogonal post_number_examples
        SIMILARITY_THRESHOLD_def)


lemma cosine_three_four: "cosine_similarity [1, 0] [3, 4] = Inr (Some (3 / 5))"
proof -
  have "sqrt 25 = 5" using real_sqrt_abs [of 5] by simp
  then show ?thesis
    by (simp add: cosine_similarity_def linalg_norm_def dot_def)
qed

lemma row_chunk_three_four:
  "row_chunk [1, 0] ''forum'' (Some ''https://d.org/t/5/9'', ''far'', Some [3, 4])
     = Inr (Some \<lparr>source = ''forum'', content = ''far'', url = Some ''https://d.org/t/5/9'',
                  similarity = 3 / 5, post_number = 9\<rparr>)"
proof -
  have "post_number_of (Some ''https://d.org/t/5/9'') = Inr 9" by code_simp
  then show ?thesis
    by (simp add: row_chunk_def cosine_three_four SIMILARITY_THRESHOLD_def)
qed

lemma ranked_example:
  "sort_key rank_key (all_chunks [1, 0]
     [(Some ''https://d.org/t/5/9'', ''far'', Some [3, 4]),
      (Some ''https://d.org/t/5/2'', ''a'', Some [1, 0]),
      (Some ''https://d.org/t/5/7/'', ''b'', Some [1, 0])]
     [(Some ''https://c.org/page'', ''d'', Some [1, 0])])
   = [\<lparr>source = ''forum'', content = ''b'', url = Some ''https://d.org/t/5/7/'',
        similarity = 1, post_number = 7\<rparr>,
      \<lparr>source = ''forum'', content = ''a'', url = Some ''https://d.org/t/5/2'',
        similarity = 1, post_number = 2\<rparr>,
      \<lparr>source = ''course'', content = ''d'', url = Some ''https://c.org/page'',
        similarity = 1, post_number = 0\<rparr>,
      \<lparr>source = ''forum'', content = ''far'', url = Some ''https://d.org/t/5/9'',
        similarity = 3 / 5, post_number = 9\<rparr>]"
  by (simp add: all_chunks_def row_chunk_examples row_chunk_three_four rank_key_def
        less_eq_prod_def)

theorem retrieve_ranked_witness:
  "(0::int) \<le> 3
   \<and> retrieve [1, 0]
       [(Some ''https://d.org/t/5/9'', ''far'', Some [3, 4]),
        (Some ''https://d.org/t/5/2'', ''a'', Some [1, 0]),
        (Some ''https://d.org/t/5/7/'', ''b'', Some [1, 0])]
       [(Some ''https://c.org/page'', ''d'', Some [1, 0])] 3
     = [\<lparr>source = ''forum'', content = ''b'', url = Some ''https://d.org/t/5/7/'',
          similarity = 1, post_number = 7\<rparr>,
        \<lparr>source = ''forum'', content = ''a'', url = Some ''https://d.org/t/5/2'',
          similarity = 1, post_number = 2\<rparr>,
        \<lparr>source = ''course'', content = ''d'', url = Some ''https://c.org/page'',
          similarity = 1, post_number = 0\<rparr>]
   \<and> length (retrieve [1, 0]
       [(Some ''https://d.org/t/5/9'', ''far'', Some [3, 4]),
        (Some ''https://d.org/t/5/2'', ''a'', Some [1, 0]),
        (Some ''https://d.org/t/5/7/'', ''b'', Some [1, 0])]
       [(Some ''https://c.org/page'', ''d'', Some [1, 0])] 3) \<le> nat 3"
proof -
  have h: "(0::int) \<le> 3" by simp
  note T = retrieve_ranked [of "[1, 0]"
       "[(Some ''https://d.org/t/5/9'', ''far'', Some [3, 4]),
        (Some ''https://d.org/t/5/2'', ''a'', Some [1, 0]),
        (Some ''https://d.org/t/5/7/'', ''b'', Some [1, 0])]"
       "[(Some ''https://c.org/page'', ''d'', Some [1, 0])]" 3]
  note bounded = T [THEN conjunct2, THEN conjunct1, rule_format, OF h]
  from bounded [THEN conjunct2] have "retrieve [1, 0]
       [(Some ''https://d.org/t/5/9'', ''far'', Some [3, 4]),
        (Some ''https://d.org/t/5/2'', ''a'', Some [1, 0]),
        (Some ''https://d.org/t/5/7/'', ''b'', Some [1, 0])]
       [(Some ''https://c.org/page'', ''d'', Some [1, 0])] 3
     = [\<lparr>source = ''forum'', content = ''b'', url = Some ''https://d.org/t/5/7/'',
          similarity = 1, post_number = 7\<rparr>,
        \<lparr>source = ''forum'', content = ''a'', url = Some ''https://d.org/t/5/2'',
          similarity = 1, post_number = 2\<rparr>,
        \<lparr>source = ''course'', content = ''d'', url = Some ''https://c.org/page'',
          similarity = 1, post_number = 0\<rparr>]"
    by (simp add: ranked_example)
  with h bounded [THEN conjunct1] show ?thesis
    by (intro conjI)
qed


section \<open>Full ties\<close>

lemma source_table_chunks: "c \<in> set (table_chunks q src rows) \<Longrightarrow> source c = src"
  by (induction rows) (auto simp: row_chunk_def split: sum.splits option.splits if_splits prod.splits)

lemma prefix_py_prefix: "prefix (py_prefix xs k) xs"
  unfolding py_prefix_def by (rule take_is_prefix)

lemma prefix_filter: "prefix xs ys \<Longrightarrow> prefix (filter P xs) (filter P ys)"
  by (auto simp: prefix_def)

lemma sorted_wrt_prefix: "prefix xs ys \<Longrightarrow> sorted_wrt R ys \<Longrightarrow> sorted_wrt R xs"
  by (auto simp: prefix_def sorted_wrt_append)

lemma sorted_wrt_all:
  "(\<And>x y. x \<in> set xs \<Longrightarrow> y \<in> set xs \<Longrightarrow> R x y) \<Longrightarrow> sorted_wrt R xs"
  by (rule sorted_wrt_mono_rel [where P = "\<lambda>_ _. True"]) simp_all

lemma sorted_wrt_two_blocks:
  assumes "\<And>x. x \<in> set xs \<Longrightarrow> f x = a" and "\<And>y. y \<in> set ys \<Longrightarrow> f y = b" and "a \<noteq> b"
  shows "sorted_wrt (\<lambda>u v. \<not> (f u = b \<and> f v = a)) (xs @ ys)"
proof -
  have "sorted_wrt (\<lambda>u v. \<not> (f u = b \<and> f v = a)) xs"
    using assms by (intro sorted_wrt_all) auto
  moreover have "sorted_wrt (\<lambda>u v. \<not> (f u = b \<and> f v = a)) ys"
    using assms by (intro sorted_wrt_all) auto
  ultimately show ?thesis
    using assms by (auto simp: sorted_wrt_append)
qed

text \<open>
  C10. \<open>retrieve\<close> is a function of the query embedding and the rows of the two tables, and
  it resolves full ties by scan order. For every key \<open>k\<close> (a similarity and a \<open>post_number\<close>),
  the results with that key are an initial part of the surviving forum chunks with that key, in
  the order of the forum table, followed by the surviving course chunks with that key, in the
  order of the course table: among fully tied results no course chunk comes before a forum
  chunk.
\<close>

theorem retrieve_ties_keep_scan_order:
  "prefix (filter (\<lambda>x. rank_key x = k) (retrieve question_embedding forum_chunks course_chunks top_k))
     (filter (\<lambda>x. rank_key x = k) (table_chunks question_embedding ''forum'' forum_chunks)
        @ filter (\<lambda>x. rank_key x = k) (table_chunks question_embedding ''course'' course_chunks))
   \<and> sorted_wrt (\<lambda>a b. \<not> (source a = ''course'' \<and> source b = ''forum''))
        (filter (\<lambda>x. rank_key x = k) (retrieve question_embedding forum_chunks course_chunks top_k))"
proof -
  let ?F = "table_chunks question_embedding ''forum'' forum_chunks"
  let ?C = "table_chunks question_embedding ''course'' course_chunks"
  let ?P = "\<lambda>x. rank_key x = k"
  let ?out = "retrieve question_embedding forum_chunks course_chunks top_k"
  have "filter ?P (sort_key rank_key (?F @ ?C)) = filter ?P (?F @ ?C)"
    by (rule sort_key_stable)
  moreover have "prefix (filter ?P ?out) (filter ?P (sort_key rank_key (?F @ ?C)))"
    unfolding retrieve_def all_chunks_def by (rule prefix_filter) (rule prefix_py_prefix)
  ultimately have pre: "prefix (filter ?P ?out) (filter ?P ?F @ filter ?P ?C)"
    by simp
  have "sorted_wrt (\<lambda>a b. \<not> (source a = ''course'' \<and> source b = ''forum''))
          (filter ?P ?F @ filter ?P ?C)"
    by (rule sorted_wrt_two_blocks) (auto dest: source_table_chunks)
  with pre have "sorted_wrt (\<lambda>a b. \<not> (source a = ''course'' \<and> source b = ''forum''))
          (filter ?P ?out)"
    by (rule sorted_wrt_prefix)
  with pre show ?thesis ..
qed


section \<open>The similarity filter and the tie-break key\<close>

text \<open>Which chunks \<open>table_chunks\<close> holds: one for every row whose embedding decodes, has the
  query's length and a similarity at or above the threshold, and whose \<open>post_number\<close>
  expression does not raise.\<close>

lemma row_chunk_Some_iff:
  "row_chunk q src (u, t, e) = Inr (Some c) \<longleftrightarrow>
     (\<exists>emb sim n. e = Some emb \<and> length emb = length q
        \<and> cosine_similarity q emb = Inr (Some sim) \<and> SIMILARITY_THRESHOLD \<le> sim
        \<and> post_number_of u = Inr n
        \<and> c = \<lparr>source = src, content = t, url = u, similarity = sim, post_number = n\<rparr>)"
proof (cases e)
  case None
  then show ?thesis by (simp add: row_chunk_def)
next
  case (Some emb)
  show ?thesis
  proof (cases "length emb = length q")
    case False
    with Some show ?thesis by (simp add: row_chunk_def)
  next
    case True
    show ?thesis
    proof (cases "cosine_similarity q emb")
      case (Inl err)
      with Some True show ?thesis by (simp add: row_chunk_def)
    next
      case (Inr s)
      show ?thesis
      proof (cases s)
        case None
        with Some True Inr show ?thesis by (simp add: row_chunk_def)
      next
        case sim: (Some sim)
        show ?thesis
        proof (cases "post_number_of u")
          case (Inl err)
          with Some True Inr sim show ?thesis by (simp add: row_chunk_def)
        next
          case n: (Inr n)
          with Some True Inr sim show ?thesis by (auto simp add: row_chunk_def)
        qed
      qed
    qed
  qed
qed

lemma table_chunks_iff:
  "c \<in> set (table_chunks q src rows) \<longleftrightarrow>
     (\<exists>u t emb sim n. (u, t, Some emb) \<in> set rows \<and> length emb = length q
        \<and> cosine_similarity q emb = Inr (Some sim) \<and> SIMILARITY_THRESHOLD \<le> sim
        \<and> post_number_of u = Inr n
        \<and> c = \<lparr>source = src, content = t, url = u, similarity = sim, post_number = n\<rparr>)"
  (is "_ \<longleftrightarrow> ?R rows")
proof (induction rows)
  case Nil
  show ?case by simp
next
  case (Cons r rows)
  obtain u t e where r: "r = (u, t, e)" by (cases r)
  have step: "c \<in> set (table_chunks q src (r # rows)) \<longleftrightarrow>
      row_chunk q src r = Inr (Some c) \<or> c \<in> set (table_chunks q src rows)"
    by (auto split: sum.splits option.splits)
  have "?R (r # rows) \<longleftrightarrow> row_chunk q src r = Inr (Some c) \<or> ?R rows"
    unfolding r row_chunk_Some_iff by auto
  with step Cons.IH show ?case by simp
qed


text \<open>
  C1. A stored chunk is expected in the output of \<open>retrieve\<close> exactly when its embedding has
  the query's dimensionality and its cosine similarity is at or above the threshold. The code
  leaves out a row that meets both conditions when its \<open>url\<close> column is \<open>NULL\<close>: the query
  \<open>[1, 0]\<close> and a course row with the embedding \<open>[1, 0]\<close> have the same length and cosine
  similarity 1, above the threshold, and the output is empty.
\<close>

theorem retrieve_drops_similar_chunk_without_url:
  "length [1, 0 :: real] = length [1, 0 :: real]
   \<and> cosine_similarity [1, 0] [1, 0] = Inr (Some 1)
   \<and> SIMILARITY_THRESHOLD \<le> 1
   \<and> retrieve [1, 0] [] [(None, ''c'', Some [1, 0])] MAX_RESULTS = []"
  by (simp add: cosine_unit_same SIMILARITY_THRESHOLD_def retrieve_def all_chunks_def
        row_chunk_examples py_prefix_def)

text \<open>
  C5. The tie-break key of a chunk that passes the similarity filter is the last path segment
  of its URL read as an integer when that segment is numeric, and 0 otherwise; a chunk with no
  URL is expected to take part in the ranking with key 0. In the code a URL ending in \<open>/7/\<close>
  gives the key 7 and a URL ending in \<open>page\<close> gives the key 0, but for an absent URL the key
  expression raises, and the row is skipped: of the four rows below that pass the filter, the
  course row without a URL is missing from the output.
\<close>

theorem post_number_key_and_absent_url:
  "post_number_of (Some ''https://d.org/t/5/7/'') = Inr 7
   \<and> post_number_of (Some ''https://c.org/page'') = Inr 0
   \<and> post_number_of None = Inl AttributeError
   \<and> retrieve [1, 0]
       [(Some ''https://d.org/t/5/2'', ''a'', Some [1, 0]),
        (Some ''https://d.org/t/5/7/'', ''b'', Some [1, 0]),
        (Some ''https://d.org/t/5/9'', ''low'', Some [0, 1])]
       [(None, ''c'', Some [1, 0]),
        (Some ''https://c.org/page'', ''d'', Some [1, 0])] MAX_RESULTS
     = [\<lparr>source = ''forum'', content = ''b'', url = Some ''https://d.org/t/5/7/'',
          similarity = 1, post_number = 7\<rparr>,
        \<lparr>source = ''forum'', content = ''a'', url = Some ''https://d.org/t/5/2'',
          similarity = 1, post_number = 2\<rparr>,
        \<lparr>source = ''course'', content = ''d'', url = Some ''https://c.org/page'',
          similarity = 1, post_number = 0\<rparr>]"
  by (simp add: post_number_examples retrieve_def all_chunks_def row_chunk_examples rank_key_def
        less_eq_prod_def py_prefix_def py_bound_def MAX_RESULTS_def)

section \<open>The front-matter block\<close>

lemma after_prefix_set: "after_prefix p s = Some r \<Longrightarrow> set p \<subseteq> set s"
  by (induction p s rule: after_prefix.induct) (auto split: if_splits)

lemma set_py_strip: "set (py_strip s) \<subseteq> set s"
proof -
  have "set (dropWhile P xs) \<subseteq> set xs" for P and xs :: string
    by (auto dest: set_dropWhileD)
  from this [of is_space "rev (dropWhile is_space s)"] this [of is_space s]
  show ?thesis by (auto simp: py_strip_def)
qed

lemma url_line_value:
  assumes "is_url_line l"
  shows "original_url_value l
         = Inr (py_strip_chars [CHR 0x22] (py_strip (tl (dropWhile (\<lambda>c. c \<noteq> CHR '':'') l))))"
proof -
  from assms obtain r where "after_prefix ''original_url:'' (py_strip l) = Some r"
    by (auto simp: is_url_line_def startswith_def)
  then have "set ''original_url:'' \<subseteq> set (py_strip l)" by (rule after_prefix_set)
  with set_py_strip [of l] have "CHR '':'' \<in> set l" by auto
  then show ?thesis by (simp add: original_url_value_def py_split1_def)
qed

lemma delimiter_not_url_line: "py_strip l = ''---'' \<Longrightarrow> \<not> is_url_line l"
  by (simp add: is_url_line_def startswith_def)

lemma front_matter_closed:
  assumes "\<forall>l \<in> set block. py_strip l \<noteq> ''---''" and "py_strip closing = ''---''"
  shows "front_matter u (block @ closing # rest)
         = Inr (case block_url block of None \<Rightarrow> u | Some v \<Rightarrow> Some v, Some rest)"
  using assms(1)
proof (induction block arbitrary: u)
  case Nil
  with assms(2) delimiter_not_url_line [OF assms(2)] show ?case
    by (simp add: block_url_def is_url_line_def)
next
  case (Cons l block)
  then have IH: "front_matter w (block @ closing # rest)
         = Inr (case block_url block of None \<Rightarrow> w | Some v \<Rightarrow> Some v, Some rest)" for w
    by simp
  from Cons.prems have nd: "py_strip l \<noteq> ''---''" by simp
  show ?case
  proof (cases "is_url_line l")
    case True
    have "block_url (l # block)
          = (case block_url block of
               None \<Rightarrow> Some (py_strip_chars [CHR 0x22] (py_strip (tl (dropWhile (\<lambda>c. c \<noteq> CHR '':'') l))))
             | Some v \<Rightarrow> Some v)"
      using True by (simp add: block_url_def split: list.splits)
    with True url_line_value [OF True] IH show ?thesis
      by (simp add: is_url_line_def split: option.splits)
  next
    case False
    then have "block_url (l # block) = block_url block"
      by (simp add: block_url_def)
    with False nd IH show ?thesis
      by (simp add: is_url_line_def)
  qed
qed

lemma buffer_rows_url:
  "buffer_rows create f st u buf = Some (Inr new) \<Longrightarrow> r \<in> set new \<Longrightarrow> row_url r = u"
  by (auto simp: buffer_rows_def row_url_def split: option.splits sum.splits)

lemma course_body_url:
  "course_body create f u st buf rows lines = Some (Inr out) \<Longrightarrow>
   \<forall>r \<in> set rows. row_url r = u \<Longrightarrow> \<forall>r \<in> set out. row_url r = u"
proof (induction create f u st buf rows lines arbitrary: out rule: course_body.induct)
  case (1 create f u st buf rows)
  then show ?case
    by (auto split: if_splits option.splits sum.splits dest: buffer_rows_url)
next
  case (2 create f u st buf rows line lines)
  show ?case
  proof (cases "startswith (py_strip line) ''#''")
    case False
    with 2 show ?thesis by simp
  next
    case heading: True
    show ?thesis
    proof (cases "py_strip buf \<noteq> []")
      case False
      with 2 heading show ?thesis by simp
    next
      case True
      with "2.prems"(1) heading obtain new where
        new: "buffer_rows create f st u buf = Some (Inr new)"
        by (auto split: option.splits sum.splits)
      from buffer_rows_url [OF new] "2.prems"(2)
      have "\<forall>r \<in> set (rows @ new). row_url r = u" by auto
      moreover from "2.prems"(1) heading True new
      have "course_body create f u (py_strip (py_strip_chars ''# '' line)) [] (rows @ new) lines
            = Some (Inr out)" by simp
      ultimately show ?thesis
        using "2.IH"(1) [OF heading True new] by blast
    qed
  qed
qed


text \<open>
  C9. For a course document whose first line is the front-matter delimiter and whose block is
  closed by a second delimiter line: the rows produced are those of the lines after the closing
  delimiter alone, so nothing between the two delimiters is chunked; every row carries as its
  \<open>url\<close> the value of the block's \<open>original_url:\<close> field, quotes stripped (the last such field when
  there are several); and with no such field in the block the rows carry no URL.
\<close>

theorem front_matter_url_attached:
  assumes "splitlines file_text = opening # block @ closing # rest"
    and "py_strip opening = ''---''"
    and "py_strip closing = ''---''"
    and "\<forall>l \<in> set block. py_strip l \<noteq> ''---''"
  shows "process_course_md create filepath file_text
           = course_body create (basename filepath) (block_url block) [] [] [] rest
         \<and> (\<forall>rows. process_course_md create filepath file_text = Some (Inr rows) \<longrightarrow>
               (\<forall>r \<in> set rows. row_url r = block_url block))
         \<and> (\<not> list_ex is_url_line block \<longrightarrow> block_url block = None)"
proof -
  have scan: "front_matter None (block @ closing # rest) = Inr (block_url block, Some rest)"
    using front_matter_closed [OF assms(4) assms(3), of None rest]
    by (simp split: option.splits)
  have body: "process_course_md create filepath file_text
           = course_body create (basename filepath) (block_url block) [] [] [] rest"
    by (simp add: process_course_md_def assms(1) assms(2) scan)
  have urls: "\<forall>r \<in> set rows. row_url r = block_url block"
    if "process_course_md create filepath file_text = Some (Inr rows)" for rows
    using that course_body_url [of create "basename filepath" "block_url block" "[]" "[]" "[]" rest rows]
    unfolding body by simp
  have none: "block_url block = None" if "\<not> list_ex is_url_line block"
  proof -
    from that have "filter is_url_line block = []"
      by (simp add: list_ex_iff filter_empty_conv)
    then show ?thesis by (simp add: block_url_def)
  qed
  from body urls none show ?thesis by blast
qed

lemma example_document_lines:
  "splitlines example_document
     = ''---'' # [''title: x'', ''original_url: '' @ [CHR 0x22] @ ''https://c.org/p'' @ [CHR 0x22]]
         @ ''---'' # [''# Intro'', ''hello'', ''## Next'', ''world'']"
  by code_simp

lemma example_document_block:
  "py_strip ''---'' = ''---''"
  "\<forall>l \<in> set [''title: x'', ''original_url: '' @ [CHR 0x22] @ ''https://c.org/p'' @ [CHR 0x22]].
     py_strip l \<noteq> ''---''"
  "block_url [''title: x'', ''original_url: '' @ [CHR 0x22] @ ''https://c.org/p'' @ [CHR 0x22]]
     = Some ''https://c.org/p''"
  by code_simp+

lemma example_document_rows:
  "course_body unit_create (basename ''dir/a.md'') (Some ''https://c.org/p'') [] [] []
     [''# Intro'', ''hello'', ''## Next'', ''world'']
   = Some (Inr [(''a.md'', ''Intro'', Some ''https://c.org/p'', ''hello'', [1, 0]),
                (''a.md'', ''Next'', Some ''https://c.org/p'', ''world'', [1, 0])])"
  by code_simp

theorem front_matter_url_attached_witness:
  "splitlines example_document
     = ''---'' # [''title: x'', ''original_url: '' @ [CHR 0x22] @ ''https://c.org/p'' @ [CHR 0x22]]
         @ ''---'' # [''# Intro'', ''hello'', ''## Next'', ''world'']
   \<and> py_strip ''---'' = ''---''
   \<and> block_url [''title: x'', ''original_url: '' @ [CHR 0x22] @ ''https://c.org/p'' @ [CHR 0x22]]
       = Some ''https://c.org/p''
   \<and> process_course_md unit_create ''dir/a.md'' example_document
       = Some (Inr [(''a.md'', ''Intro'', Some ''https://c.org/p'', ''hello'', [1, 0]),
                    (''a.md'', ''Next'', Some ''https://c.org/p'', ''world'', [1, 0])])
   \<and> row_url (''a.md'', ''Intro'', Some ''https://c.org/p'', ''hello'', [1, 0])
       = block_url [''title: x'', ''original_url: '' @ [CHR 0x22] @ ''https://c.org/p'' @ [CHR 0x22]]"
proof -
  note T = front_matter_url_attached [OF example_document_lines example_document_block(1)
    example_document_block(1) example_document_block(2), of unit_create "''dir/a.md''"]
  from T [THEN conjunct1]
  have run: "process_course_md unit_create ''dir/a.md'' example_document
       = Some (Inr [(''a.md'', ''Intro'', Some ''https://c.org/p'', ''hello'', [1, 0]),
                    (''a.md'', ''Next'', Some ''https://c.org/p'', ''world'', [1, 0])])"
    by (simp only: example_document_block(3) example_document_rows)
  from T [THEN conjunct2, THEN conjunct1, rule_format, OF run]
  have "row_url (''a.md'', ''Intro'', Some ''https://c.org/p'', ''hello'', [1, 0])
       = block_url [''title: x'', ''original_url: '' @ [CHR 0x22] @ ''https://c.org/p'' @ [CHR 0x22]]"
    by simp
  with example_document_lines example_document_block(1) example_document_block(3) run
  show ?thesis by (intro conjI)
qed

section \<open>The endpoint and the generative model\<close>

lemma sort_key_Nil_iff: "sort_key rank_key xs = [] \<longleftrightarrow> xs = []"
  using length_sort [of rank_key xs] by (metis length_0_conv)

lemma retrieve_empty_iff:
  "retrieve question_embedding forum_chunks course_chunks MAX_RESULTS = []
     \<longleftrightarrow> all_chunks question_embedding forum_chunks course_chunks = []"
  by (simp add: retrieve_def py_prefix_def py_bound_def MAX_RESULTS_def sort_key_Nil_iff min_def)


text \<open>
  C3. When retrieval returns no chunk (with the default \<open>top_k\<close> that is: when no stored chunk
  survives the filter), the endpoint returns the fixed answer \<open>I couldn't find relevant
  content.\<close> with an empty list of links and sends no request to the generative model; when
  retrieval returns at least one chunk it sends exactly one request.
\<close>

theorem query_refusal_or_one_call:
  "(retrieve_similar_chunks get_embedding forum_chunks course_chunks (question req) MAX_RESULTS
      = Inr [] \<longrightarrow>
      query_virtual_ta ocr get_embedding forum_chunks course_chunks post req = (Inr refusal, []))
   \<and> (\<forall>chunks. retrieve_similar_chunks get_embedding forum_chunks course_chunks (question req)
          MAX_RESULTS = Inr chunks \<and> chunks \<noteq> [] \<longrightarrow>
        length (snd (query_virtual_ta ocr get_embedding forum_chunks course_chunks post req)) = 1)
   \<and> (\<forall>question_embedding. get_embedding (question req) = Inr question_embedding \<longrightarrow>
        (retrieve_similar_chunks get_embedding forum_chunks course_chunks (question req)
           MAX_RESULTS = Inr []
         \<longleftrightarrow> all_chunks question_embedding forum_chunks course_chunks = []))
   \<and> refusal = \<lparr>answer = ''I couldn'' @ [CHR 0x27] @ ''t find relevant content.'', links = []\<rparr>"
proof -
  have none: "query_virtual_ta ocr get_embedding forum_chunks course_chunks post req
              = (Inr refusal, [])"
    if "retrieve_similar_chunks get_embedding forum_chunks course_chunks (question req)
          MAX_RESULTS = Inr []"
    using that by (simp add: query_virtual_ta_def Let_def)
  have once: "length (snd (query_virtual_ta ocr get_embedding forum_chunks course_chunks post req)) = 1"
    if "retrieve_similar_chunks get_embedding forum_chunks course_chunks (question req)
          MAX_RESULTS = Inr chunks \<and> chunks \<noteq> []" for chunks
    using that
    by (auto simp add: query_virtual_ta_def generate_llm_answer_def Let_def split: option.splits)
  have survive: "retrieve_similar_chunks get_embedding forum_chunks course_chunks (question req)
           MAX_RESULTS = Inr []
         \<longleftrightarrow> all_chunks question_embedding forum_chunks course_chunks = []"
    if "get_embedding (question req) = Inr question_embedding" for question_embedding
    using that by (simp add: retrieve_similar_chunks_def retrieve_empty_iff)
  have fixed: "refusal = \<lparr>answer = ''I couldn'' @ [CHR 0x27] @ ''t find relevant content.'', links = []\<rparr>"
    by (simp add: refusal_def)
  show ?thesis
    by (intro conjI allI impI) (rule fixed | (rule none once survive, assumption))+
qed

lemma example_output_parsed:
  "parse_response example_output
     = \<lparr>answer = ''1. Use podman.'',
        links = [\<lparr>link_url = ''http://a'', link_text = [CHR 0x22] @ ''x'' @ [CHR 0x22]\<rparr>,
                 \<lparr>link_url = ''http://b'', link_text = [CHR 0x22] @ ''y'' @ [CHR 0x22]\<rparr>]\<rparr>"
  by code_simp

lemma example_retrievals:
  "retrieve_similar_chunks unit_embedding [] [] (question example_request) MAX_RESULTS = Inr []"
  "retrieve_similar_chunks unit_embedding [(Some ''https://d.org/t/5/2'', ''a'', Some [1, 0])] []
     (question example_request) MAX_RESULTS
   = Inr [\<lparr>source = ''forum'', content = ''a'', url = Some ''https://d.org/t/5/2'',
            similarity = 1, post_number = 2\<rparr>]"
  by (simp_all add: retrieve_similar_chunks_def unit_embedding_def retrieve_def all_chunks_def
        row_chunk_examples py_prefix_def py_bound_def MAX_RESULTS_def)

theorem query_refusal_or_one_call_witness:
  "retrieve_similar_chunks unit_embedding [] [] (question example_request) MAX_RESULTS = Inr []
   \<and> query_virtual_ta no_ocr unit_embedding [] [] canned_post example_request = (Inr refusal, [])
   \<and> retrieve_similar_chunks unit_embedding [(Some ''https://d.org/t/5/2'', ''a'', Some [1, 0])] []
       (question example_request) MAX_RESULTS
     = Inr [\<lparr>source = ''forum'', content = ''a'', url = Some ''https://d.org/t/5/2'',
              similarity = 1, post_number = 2\<rparr>]
   \<and> length (snd (query_virtual_ta no_ocr unit_embedding
         [(Some ''https://d.org/t/5/2'', ''a'', Some [1, 0])] [] canned_post example_request)) = 1
   \<and> fst (query_virtual_ta no_ocr unit_embedding
         [(Some ''https://d.org/t/5/2'', ''a'', Some [1, 0])] [] canned_post example_request)
     = Inr \<lparr>answer = ''1. Use podman.'',
        links = [\<lparr>link_url = ''http://a'', link_text = [CHR 0x22] @ ''x'' @ [CHR 0x22]\<rparr>,
                 \<lparr>link_url = ''http://b'', link_text = [CHR 0x22] @ ''y'' @ [CHR 0x22]\<rparr>]\<rparr>"
proof -
  note none = query_refusal_or_one_call [of unit_embedding "[]" "[]" example_request no_ocr
    canned_post, THEN conjunct1, rule_format, OF example_retrievals(1)]
  have ne: "[\<lparr>source = ''forum'', content = ''a'', url = Some ''https://d.org/t/5/2'',
              similarity = 1, post_number = 2 :: int\<rparr>] \<noteq> []" by simp
  note once = query_refusal_or_one_call [of unit_embedding
    "[(Some ''https://d.org/t/5/2'', ''a'', Some [1, 0])]" "[]" example_request no_ocr
    canned_post, THEN conjunct2, THEN conjunct1, rule_format,
    OF conjI [OF example_retrievals(2) ne]]
  have parsed: "fst (query_virtual_ta no_ocr unit_embedding
         [(Some ''https://d.org/t/5/2'', ''a'', Some [1, 0])] [] canned_post example_request)
     = Inr \<lparr>answer = ''1. Use podman.'',
        links = [\<lparr>link_url = ''http://a'', link_text = [CHR 0x22] @ ''x'' @ [CHR 0x22]\<rparr>,
                 \<lparr>link_url = ''http://b'', link_text = [CHR 0x22] @ ''y'' @ [CHR 0x22]\<rparr>]\<rparr>"
    by (simp add: query_virtual_ta_def example_retrievals(2) generate_llm_answer_def Let_def
          canned_post_def example_output_parsed)
  from example_retrievals(1) none example_retrievals(2) once parsed show ?thesis
    by (intro conjI)
qed

section \<open>Parsing the response\<close>

lemma is_space_newline: "is_space newline"
  by (simp add: is_space_def newline_def)

lemma after_prefix_append:
  "after_prefix p a = Some r \<Longrightarrow> after_prefix p (a @ x) = Some (r @ x)"
  by (induction p a rule: after_prefix.induct) (auto split: if_splits)

lemma after_prefix_eq: "after_prefix p s = Some r \<longleftrightarrow> s = p @ r"
  by (induction p s rule: after_prefix.induct) auto

lemma after_prefix_line_end:
  "after_prefix p a = None \<Longrightarrow> newline \<notin> set p \<Longrightarrow> after_prefix p (a @ newline # x) = None"
  by (induction p a rule: after_prefix.induct) (auto split: if_splits)

lemma closed_tail_suffix:
  assumes "closed_tail (pre @ a)"
  shows "closed_tail a"
  unfolding closed_tail_def
proof (intro allI impI)
  fix p k w
  assume "a = p @ k @ w \<and> k \<in> pattern_keys"
  then have "pre @ a = (pre @ p) @ k @ w \<and> k \<in> pattern_keys" by simp
  with assms show "\<not> list_all is_space w"
    unfolding closed_tail_def by blast
qed

lemma closed_tail_drop: "closed_tail a \<Longrightarrow> closed_tail (drop n a)"
  using closed_tail_suffix [of "take n a" "drop n a"] by simp

lemma closed_tail_key:
  assumes "closed_tail (k @ w)" and "k \<in> pattern_keys"
  shows "\<exists>c \<in> set w. \<not> is_space c"
proof -
  from assms(2) have "k @ w = [] @ k @ w \<and> k \<in> pattern_keys" by simp
  with assms(1) have "\<not> list_all is_space w"
    unfolding closed_tail_def by blast
  then show ?thesis by (simp add: list_all_iff)
qed

lemma dropWhile_line:
  assumes "\<exists>c \<in> set w. \<not> is_space c"
  shows "dropWhile is_space (w @ x) = dropWhile is_space w @ x"
  using assms by (auto simp: dropWhile_append1)

lemma pattern_keys_last: "k \<in> pattern_keys \<Longrightarrow> k \<noteq> [] \<and> \<not> is_space (last k)"
  by (auto simp: pattern_keys_def is_space_def)

lemma pattern_keys_newline: "k \<in> pattern_keys \<Longrightarrow> newline \<notin> set k"
  by (auto simp: pattern_keys_def newline_def)

lemma ends_with_append: "ends_with (pre @ k) k"
  by (simp add: ends_with_def startswith_def after_prefix_eq)

lemma open_ended_keys:
  "open_ended l \<longleftrightarrow> (\<exists>k \<in> pattern_keys. ends_with (rev (dropWhile is_space (rev l))) k)"
  by (simp add: open_ended_def pattern_keys_def Let_def)

lemma not_open_ended_closed_tail:
  assumes "\<not> open_ended l"
  shows "closed_tail l"
  unfolding closed_tail_def
proof (intro allI impI notI)
  fix pre k w
  assume h: "l = pre @ k @ w \<and> k \<in> pattern_keys" and w: "list_all is_space w"
  from h pattern_keys_last have k: "k \<noteq> []" "\<not> is_space (last k)"
    by blast+
  from w have "dropWhile is_space (rev w @ rev (pre @ k)) = dropWhile is_space (rev (pre @ k))"
    by (intro dropWhile_append2) (simp add: list_all_iff)
  also from k have "\<dots> = rev (pre @ k)"
    by (cases k rule: rev_cases) auto
  finally have "rev (dropWhile is_space (rev l)) = pre @ k"
    using h by simp
  with ends_with_append [of pre k] h have "open_ended l"
    unfolding open_ended_keys by auto
  with assms show False ..
qed

lemma takeWhile_line:
  "newline \<notin> set r \<Longrightarrow> takeWhile (\<lambda>c. c \<noteq> newline) (r @ newline # x) = r"
  by (induction r) auto

lemma dropWhile_to_line_end:
  "newline \<notin> set r \<Longrightarrow> dropWhile (\<lambda>c. c \<noteq> newline) (r @ newline # x) = newline # x"
  by (induction r) auto

lemma takeWhile_whole_line:
  "newline \<notin> set r \<Longrightarrow> takeWhile (\<lambda>c. c \<noteq> newline) r = r"
  by (induction r) auto

lemma dropWhile_whole_line:
  "newline \<notin> set r \<Longrightarrow> dropWhile (\<lambda>c. c \<noteq> newline) r = []"
  by (induction r) auto

lemma match_after_token_line:
  assumes nl: "newline \<notin> set a" and ct: "closed_tail a"
  shows "match_after_token (a @ newline # x)
         = (case match_after_token a of
              None \<Rightarrow> None
            | Some (t, r) \<Rightarrow> Some (t, newline # x))"
    and "match_after_token a = Some (t, r) \<Longrightarrow> r = []"
proof -
  have both: "match_after_token (a @ newline # x)
         = (case match_after_token a of None \<Rightarrow> None | Some (t, r) \<Rightarrow> Some (t, newline # x))
       \<and> (\<forall>t r. match_after_token a = Some (t, r) \<longrightarrow> r = [])"
  proof (cases a)
    case Nil
    then show ?thesis
      by (simp add: match_after_token_def newline_def)
  next
    case (Cons c r1)
    show ?thesis
    proof (cases "c = CHR '',''")
      case False
      with Cons show ?thesis by (simp add: match_after_token_def)
    next
      case True
      let ?d = "dropWhile is_space r1"
      from Cons True have a: "a = '','' @ r1" by simp
      from ct a have "\<exists>c \<in> set r1. \<not> is_space c"
        by (intro closed_tail_key [of "'',''" r1]) (simp_all add: pattern_keys_def)
      then have d: "dropWhile is_space (r1 @ newline # x) = ?d @ newline # x"
        by (rule dropWhile_line)
      from nl Cons have nld: "newline \<notin> set ?d"
        by (auto dest: set_dropWhileD)
      show ?thesis
      proof (cases "after_prefix ''Text:'' ?d")
        case None
        then have "after_prefix ''Text:'' (?d @ newline # x) = None"
          by (rule after_prefix_line_end) (simp add: newline_def)
        with None Cons True d show ?thesis
          by (simp add: match_after_token_def)
      next
        case (Some r2)
        then have dr: "?d = ''Text:'' @ r2" by (simp only: after_prefix_eq)
        have "a = ('','' @ takeWhile is_space r1) @ ''Text:'' @ r2"
          unfolding a using dr takeWhile_dropWhile_id [of is_space r1] by (metis append.assoc)
        with ct have "closed_tail (''Text:'' @ r2)"
          using closed_tail_suffix by metis
        then have "\<exists>c \<in> set r2. \<not> is_space c"
          by (rule closed_tail_key) (simp add: pattern_keys_def)
        then have r3: "dropWhile is_space (r2 @ newline # x) = dropWhile is_space r2 @ newline # x"
          by (rule dropWhile_line)
        from nld dr have "newline \<notin> set r2" by auto
        then have nl3: "newline \<notin> set (dropWhile is_space r2)"
          by (auto dest: set_dropWhileD)
        from after_prefix_append [OF Some, of "newline # x"]
        have "after_prefix ''Text:'' (?d @ newline # x) = Some (r2 @ newline # x)" .
        with Some Cons True d r3 nl3 show ?thesis
          by (simp add: match_after_token_def Let_def takeWhile_line dropWhile_to_line_end
                takeWhile_whole_line dropWhile_whole_line)
      qed
    qed
  qed
  from both show "match_after_token (a @ newline # x)
         = (case match_after_token a of None \<Rightarrow> None | Some (t, r) \<Rightarrow> Some (t, newline # x))"
    by blast
  from both show "match_after_token a = Some (t, r) \<Longrightarrow> r = []"
    by blast
qed

lemma match_token_line:
  assumes nl: "newline \<notin> set a" and ct: "closed_tail a"
  shows "n \<le> length a \<Longrightarrow>
         match_token n (a @ newline # x)
           = (case match_token n a of
                None \<Rightarrow> None
              | Some (u, t, r) \<Rightarrow> Some (u, t, newline # x))
         \<and> (\<forall>u t r. match_token n a = Some (u, t, r) \<longrightarrow> r = [])"
proof (induction n)
  case 0
  show ?case by simp
next
  case (Suc n)
  let ?b = "drop (Suc n) a"
  from nl have nlb: "newline \<notin> set ?b" by (auto dest: in_set_dropD)
  from ct have ctb: "closed_tail ?b" by (rule closed_tail_drop)
  from Suc.prems have dr: "drop (Suc n) (a @ newline # x) = ?b @ newline # x"
    and tk: "take (Suc n) (a @ newline # x) = take (Suc n) a"
    by simp_all
  note tail = match_after_token_line [OF nlb ctb]
  from Suc have IH: "match_token n (a @ newline # x)
           = (case match_token n a of None \<Rightarrow> None | Some (u, t, r) \<Rightarrow> Some (u, t, newline # x))
         \<and> (\<forall>u t r. match_token n a = Some (u, t, r) \<longrightarrow> r = [])"
    by simp
  have long: "match_token (Suc n) (a @ newline # x)
      = (case match_after_token (?b @ newline # x) of
           Some (t, rest) \<Rightarrow> Some (take (Suc n) a, t, rest)
         | None \<Rightarrow> match_token n (a @ newline # x))"
    by (simp only: match_token.simps dr tk)
  have short: "match_token (Suc n) a
      = (case match_after_token ?b of
           Some (t, rest) \<Rightarrow> Some (take (Suc n) a, t, rest)
         | None \<Rightarrow> match_token n a)"
    by (simp only: match_token.simps)
  show ?case
  proof (cases "match_after_token ?b")
    case None
    with tail(1) [of x] have "match_after_token (?b @ newline # x) = None" by simp
    with None IH show ?thesis
      by (simp only: long short option.case) blast
  next
    case (Some m)
    obtain t r where m: "m = (t, r)" by (cases m)
    from Some m tail(2) have "r = []" by blast
    moreover from Some m tail(1) [of x]
    have "match_after_token (?b @ newline # x) = Some (t, newline # x)" by simp
    ultimately show ?thesis
      using Some m by (simp only: long short option.case prod.case) simp
  qed
qed

lemma takeWhile_token_line:
  "takeWhile (\<lambda>c. \<not> is_space c) (d @ newline # x) = takeWhile (\<lambda>c. \<not> is_space c) d"
  by (induction d) (auto simp: is_space_newline)

lemma after_prefix_URL_newline: "after_prefix ''URL:'' (newline # x) = None"
  by (simp add: newline_def)

lemma match_at_line:
  assumes nl: "newline \<notin> set a" and ct: "closed_tail a"
  shows "match_at (a @ newline # x)
           = (case match_at a of
                None \<Rightarrow> None
              | Some (u, t, r) \<Rightarrow> Some (u, t, newline # x))
         \<and> (\<forall>u t r. match_at a = Some (u, t, r) \<longrightarrow> r = [])"
proof (cases "after_prefix ''URL:'' a")
  case None
  then have "after_prefix ''URL:'' (a @ newline # x) = None"
    by (rule after_prefix_line_end) (simp add: newline_def)
  with None show ?thesis by (simp add: match_at_def)
next
  case (Some r)
  then have a: "a = ''URL:'' @ r" by (simp only: after_prefix_eq)
  let ?d = "dropWhile is_space r"
  from ct a have "\<exists>c \<in> set r. \<not> is_space c"
    by (intro closed_tail_key [of "''URL:''" r]) (simp_all add: pattern_keys_def)
  then have d: "dropWhile is_space (r @ newline # x) = ?d @ newline # x"
    by (rule dropWhile_line)
  from nl a have nld: "newline \<notin> set ?d" by (auto dest: set_dropWhileD)
  have "a = (''URL:'' @ takeWhile is_space r) @ ?d"
    unfolding a by simp
  with ct have ctd: "closed_tail ?d" using closed_tail_suffix by metis
  have run: "takeWhile (\<lambda>c. \<not> is_space c) (?d @ newline # x) = takeWhile (\<lambda>c. \<not> is_space c) ?d"
    by (rule takeWhile_token_line)
  have le: "length (takeWhile (\<lambda>c. \<not> is_space c) ?d) \<le> length ?d"
    by (rule length_takeWhile_le)
  from after_prefix_append [OF Some, of "newline # x"]
  have "after_prefix ''URL:'' (a @ newline # x) = Some (r @ newline # x)" .
  with Some d run match_token_line [OF nld ctd le, of x] show ?thesis
    by (simp add: match_at_def Let_def)
qed

lemma match_at_newline: "match_at (newline # x) = None"
  by (simp add: match_at_def newline_def)

lemma finditer_line:
  assumes "newline \<notin> set a" and "closed_tail a"
  shows "finditer (a @ newline # x) = finditer a @ finditer x \<and> length (finditer a) \<le> 1"
  using assms
proof (induction a)
  case Nil
  show ?case by (simp add: match_at_newline)
next
  case (Cons c cs)
  from Cons.prems have nl: "newline \<notin> set cs" by simp
  from Cons.prems closed_tail_suffix [of "[c]" cs] have ct: "closed_tail cs" by simp
  note IH = Cons.IH [OF nl ct]
  note line = match_at_line [OF Cons.prems, of x]
  show ?case
  proof (cases "match_at (c # cs)")
    case None
    with line have "match_at (c # cs @ newline # x) = None" by simp
    with None IH show ?thesis by simp
  next
    case (Some m)
    obtain u t r where m: "m = (u, t, r)" by (cases m)
    from Some m line have r: "r = []" by blast
    from Some m line have "match_at (c # cs @ newline # x) = Some (u, t, newline # x)" by simp
    moreover have "finditer (newline # x) = finditer x"
      by (simp add: match_at_newline)
    ultimately show ?thesis using Some m r by simp
  qed
qed

lemma py_split_no_sep: "sep \<notin> set a \<Longrightarrow> py_split sep a = [a]"
  by (induction a) auto

lemma py_split_line: "sep \<notin> set a \<Longrightarrow> py_split sep (a @ sep # x) = a # py_split sep x"
  by (induction a) auto

lemma finditer_single_line:
  assumes "newline \<notin> set a" and "closed_tail a"
  shows "finditer a = List.map_filter line_citation [a]"
proof -
  from finditer_line [OF assms, of "[]"] have "length (finditer a) \<le> 1" by simp
  then show ?thesis
    by (cases "finditer a") (simp_all add: List.map_filter_simps line_citation_def)
qed

lemma finditer_lines:
  assumes "\<forall>l \<in> set (py_split newline s). closed_tail l"
  shows "finditer s = List.map_filter line_citation (py_split newline s)"
  using assms
proof (induction s rule: length_induct)
  case (1 s)
  show ?case
  proof (cases "newline \<in> set s")
    case False
    with "1.prems" show ?thesis
      by (simp add: py_split_no_sep finditer_single_line)
  next
    case True
    then obtain a x where s: "s = a @ newline # x" and nl: "newline \<notin> set a"
      by (auto dest!: split_list_first)
    from "1.prems" have ct: "closed_tail a" and rest: "\<forall>l \<in> set (py_split newline x). closed_tail l"
      by (simp_all add: s py_split_line [OF nl])
    from s have "length x < length s" by simp
    with "1.IH" rest have IH: "finditer x = List.map_filter line_citation (py_split newline x)"
      by blast
    have "List.map_filter line_citation (a # py_split newline x)
          = List.map_filter line_citation [a] @ List.map_filter line_citation (py_split newline x)"
      by (simp add: List.map_filter_def)
    with finditer_line [OF nl ct, of x] finditer_single_line [OF nl ct] IH show ?thesis
      by (simp add: s py_split_line [OF nl])
  qed
qed

lemma split_marker_Some:
  "split_marker marker seen s = Some (a, r) \<Longrightarrow> seen @ s = a @ marker @ r"
proof (induction s arbitrary: seen)
  case Nil
  then show ?case by (auto simp: after_prefix_eq split: option.splits)
next
  case (Cons c cs)
  show ?case
  proof (cases "after_prefix marker (c # cs)")
    case None
    with Cons.prems have "split_marker marker (seen @ [c]) cs = Some (a, r)" by simp
    from Cons.IH [OF this] show ?thesis by simp
  next
    case (Some rest)
    with Cons.prems show ?thesis by (auto simp: after_prefix_eq)
  qed
qed

lemma split_marker_None:
  "split_marker marker seen s = None \<longleftrightarrow> (\<nexists>a r. s = a @ marker @ r)"
proof (induction s arbitrary: seen)
  case Nil
  show ?case by (auto simp: after_prefix_eq split: option.splits)
next
  case (Cons c cs)
  show ?case
  proof (cases "after_prefix marker (c # cs)")
    case (Some rest)
    then have "c # cs = [] @ marker @ rest" by (simp add: after_prefix_eq)
    then have "\<exists>a r. c # cs = a @ marker @ r" by blast
    moreover from Some have "split_marker marker seen (c # cs) \<noteq> None" by simp
    ultimately show ?thesis by blast
  next
    case None
    then have no: "\<nexists>r. c # cs = marker @ r"
      by (auto simp: after_prefix_eq [symmetric])
    have "(\<exists>a r. c # cs = a @ marker @ r) \<longleftrightarrow> (\<exists>a r. cs = a @ marker @ r)"
    proof
      assume "\<exists>a r. c # cs = a @ marker @ r"
      then obtain a r where e: "c # cs = a @ marker @ r" by blast
      with no have "a \<noteq> []" by auto
      with e have "cs = tl a @ marker @ r" by (cases a) auto
      then show "\<exists>a r. cs = a @ marker @ r" by blast
    next
      assume "\<exists>a r. cs = a @ marker @ r"
      then obtain a r where "cs = a @ marker @ r" by blast
      then have "c # cs = (c # a) @ marker @ r" by simp
      then show "\<exists>a r. c # cs = a @ marker @ r" by blast
    qed
    with None Cons.IH [of "seen @ [c]"] show ?thesis by simp
  qed
qed

lemma split_marker_first:
  "split_marker marker seen s = Some (a, r) \<Longrightarrow> s = a' @ marker @ r' \<Longrightarrow>
   length a \<le> length seen + length a'"
proof (induction s arbitrary: seen a')
  case Nil
  then show ?case by (auto simp: after_prefix_eq split: option.splits)
next
  case (Cons c cs)
  show ?case
  proof (cases "after_prefix marker (c # cs)")
    case (Some rest)
    with Cons.prems(1) show ?thesis by simp
  next
    case None
    then have "\<nexists>r. c # cs = marker @ r"
      by (auto simp: after_prefix_eq [symmetric])
    with Cons.prems(2) have ne: "a' \<noteq> []" by auto
    with Cons.prems(2) have cs: "cs = tl a' @ marker @ r'" by (cases a') auto
    from None Cons.prems(1) have "split_marker marker (seen @ [c]) cs = Some (a, r)" by simp
    from Cons.IH [OF this cs] ne show ?thesis by (cases a') auto
  qed
qed

text \<open>
  C4, as stated: the citations are read line by line, a line that matches the pattern gives one
  citation and the other lines give none. It does not hold: the white space of the pattern
  runs over line breaks. In the sources portion below no line matches the pattern, and the
  code still finds a citation, with its URL on one line and its text on the next.
\<close>

theorem citation_spans_two_lines:
  "py_split newline broken_sources = [[], ''1. URL: http://a,'', ''Text: y'']
   \<and> line_citation [] = None
   \<and> line_citation ''1. URL: http://a,'' = None
   \<and> line_citation ''Text: y'' = None
   \<and> line_citations broken_sources = []
   \<and> parse_links broken_sources = [\<lparr>link_url = ''http://a'', link_text = ''y''\<rparr>]
   \<and> parse_response (''Sources:'' @ broken_sources)
       = \<lparr>answer = [], links = [\<lparr>link_url = ''http://a'', link_text = ''y''\<rparr>]\<rparr>"
  by code_simp

text \<open>
  C4, amended. Without the marker \<open>Sources:\<close> the whole response, trimmed, is the answer and
  there are no citations. With it, the response is cut at the first marker into an answer
  portion, returned trimmed, and a sources portion, in which the pattern is searched from left
  to right; every match gives one citation, in textual order. When no line of the sources
  portion ends, white space aside, with \<open>URL:\<close>, a comma or \<open>Text:\<close>, the citations are exactly
  those of reading it line by line: one for each line in which the pattern matches, with the
  token after \<open>URL:\<close> and the trimmed rest of the line after \<open>Text:\<close>, and none for the other
  lines. The example of the description gives its two citations in order.
\<close>

theorem citations_line_by_line:
  "((\<nexists>a r. llm_output = a @ ''Sources:'' @ r) \<longrightarrow>
      parse_response llm_output = \<lparr>answer = py_strip llm_output, links = []\<rparr>)
   \<and> (\<forall>answer_part sources_part.
        split_marker ''Sources:'' [] llm_output = Some (answer_part, sources_part) \<longrightarrow>
        llm_output = answer_part @ ''Sources:'' @ sources_part
        \<and> (\<forall>a r. llm_output = a @ ''Sources:'' @ r \<longrightarrow> length answer_part \<le> length a)
        \<and> parse_response llm_output
            = \<lparr>answer = py_strip answer_part, links = parse_links sources_part\<rparr>
        \<and> ((\<forall>l \<in> set (py_split newline sources_part). \<not> open_ended l) \<longrightarrow>
             parse_links sources_part = line_citations sources_part))
   \<and> parse_response example_output
       = \<lparr>answer = ''1. Use podman.'',
          links = [\<lparr>link_url = ''http://a'', link_text = [CHR 0x22] @ ''x'' @ [CHR 0x22]\<rparr>,
                   \<lparr>link_url = ''http://b'', link_text = [CHR 0x22] @ ''y'' @ [CHR 0x22]\<rparr>]\<rparr>"
proof -
  have absent: "parse_response llm_output = \<lparr>answer = py_strip llm_output, links = []\<rparr>"
    if "\<nexists>a r. llm_output = a @ ''Sources:'' @ r"
  proof -
    from that have "split_marker ''Sources:'' [] llm_output = None"
      using split_marker_None [of "''Sources:''" "[]" llm_output] by blast
    then show ?thesis
      by (simp add: parse_response_def split_sources_def parse_links_def)
  qed
  have present: "llm_output = answer_part @ ''Sources:'' @ sources_part
        \<and> (\<forall>a r. llm_output = a @ ''Sources:'' @ r \<longrightarrow> length answer_part \<le> length a)
        \<and> parse_response llm_output
            = \<lparr>answer = py_strip answer_part, links = parse_links sources_part\<rparr>
        \<and> ((\<forall>l \<in> set (py_split newline sources_part). \<not> open_ended l) \<longrightarrow>
             parse_links sources_part = line_citations sources_part)"
    if m: "split_marker ''Sources:'' [] llm_output = Some (answer_part, sources_part)"
    for answer_part sources_part
  proof -
    from split_marker_Some [OF m] have "llm_output = answer_part @ ''Sources:'' @ sources_part"
      by simp
    moreover have "\<forall>a r. llm_output = a @ ''Sources:'' @ r \<longrightarrow> length answer_part \<le> length a"
      using split_marker_first [OF m] by fastforce
    moreover from m have "parse_response llm_output
            = \<lparr>answer = py_strip answer_part, links = parse_links sources_part\<rparr>"
      by (simp add: parse_response_def split_sources_def)
    moreover have "parse_links sources_part = line_citations sources_part"
      if "\<forall>l \<in> set (py_split newline sources_part). \<not> open_ended l"
    proof -
      from that have "\<forall>l \<in> set (py_split newline sources_part). closed_tail l"
        by (blast intro: not_open_ended_closed_tail)
      then show ?thesis
        by (simp only: parse_links_def line_citations_def finditer_lines)
    qed
    ultimately show ?thesis by blast
  qed
  from absent present example_output_parsed show ?thesis by blast
qed

lemma example_output_split:
  "split_marker ''Sources:'' [] example_output
     = Some (''1. Use podman.'' @ [newline, newline], example_sources)"
  "split_marker ''Sources:'' [] ''No idea.'' = None"
  "list_all (\<lambda>l. \<not> open_ended l) (py_split newline example_sources)"
  "line_citations example_sources
     = [\<lparr>link_url = ''http://a'', link_text = [CHR 0x22] @ ''x'' @ [CHR 0x22]\<rparr>,
        \<lparr>link_url = ''http://b'', link_text = [CHR 0x22] @ ''y'' @ [CHR 0x22]\<rparr>]"
  "py_strip ''No idea.'' = ''No idea.''"
  by code_simp+

theorem citations_line_by_line_witness:
  "split_marker ''Sources:'' [] ''No idea.'' = None
   \<and> parse_response ''No idea.'' = \<lparr>answer = ''No idea.'', links = []\<rparr>
   \<and> split_marker ''Sources:'' [] example_output
       = Some (''1. Use podman.'' @ [newline, newline], example_sources)
   \<and> example_output = (''1. Use podman.'' @ [newline, newline]) @ ''Sources:'' @ example_sources
   \<and> list_all (\<lambda>l. \<not> open_ended l) (py_split newline example_sources)
   \<and> parse_links example_sources
       = [\<lparr>link_url = ''http://a'', link_text = [CHR 0x22] @ ''x'' @ [CHR 0x22]\<rparr>,
          \<lparr>link_url = ''http://b'', link_text = [CHR 0x22] @ ''y'' @ [CHR 0x22]\<rparr>]"
proof -
  have absent: "\<nexists>a r. ''No idea.'' = a @ ''Sources:'' @ r"
    using split_marker_None [of "''Sources:''" "[]" "''No idea.''"] example_output_split(2)
    by blast
  note A = citations_line_by_line [of "''No idea.''", THEN conjunct1, rule_format, OF absent]
  note P = citations_line_by_line [of example_output, THEN conjunct2, THEN conjunct1,
    rule_format, OF example_output_split(1)]
  from example_output_split(3)
  have closed: "\<forall>l \<in> set (py_split newline example_sources). \<not> open_ended l"
    by (simp only: list_all_iff)
  from A have a: "parse_response ''No idea.'' = \<lparr>answer = ''No idea.'', links = []\<rparr>"
    by (simp only: example_output_split(5))
  from P [THEN conjunct2, THEN conjunct2, THEN conjunct2, rule_format, OF closed [rule_format]]
  have l: "parse_links example_sources
       = [\<lparr>link_url = ''http://a'', link_text = [CHR 0x22] @ ''x'' @ [CHR 0x22]\<rparr>,
          \<lparr>link_url = ''http://b'', link_text = [CHR 0x22] @ ''y'' @ [CHR 0x22]\<rparr>]"
    by (simp only: example_output_split(4))
  from example_output_split(2) a example_output_split(1) P [THEN conjunct1]
    example_output_split(3) l
  show ?thesis by (intro conjI)
qed

section \<open>The embedding adapter\<close>

text \<open>
  C8, as stated: \<open>embed\<close> returns as many vectors as it was given texts, and fails when the
  provider returns a different number. It does not hold: the endpoint below returns one vector
  for two texts, and \<open>embed\<close> returns that one vector.
\<close>

theorem embed_returns_short_response:
  "one_vector_create [''a'', ''b''] = Inr [\<lparr>index = 0, embedding = [1, 0]\<rparr>]
   \<and> length [\<lparr>index = 0, embedding = [1, 0 :: real]\<rparr>] \<noteq> length [''a'', ''b'']
   \<and> embed one_vector_create [''a'', ''b''] = Inr [[1, 0]]"
  by (simp add: embed_def one_vector_create_def)

lemma insert_all_forum_fit:
  "sqlite_integer a \<Longrightarrow> sqlite_integer b \<Longrightarrow> sqlite_integer c \<Longrightarrow>
   insert_all insert_forum_row (map (\<lambda>(chunk, emb). (a, b, c, d, e, f, chunk, emb)) zs)
     = Inr (map (\<lambda>(chunk, emb). (a, b, c, d, e, f, chunk, emb)) zs)"
  by (induction zs) (auto simp: insert_forum_row_def)

lemma insert_all_forum_overflow:
  "\<not> (sqlite_integer a \<and> sqlite_integer b \<and> sqlite_integer c) \<Longrightarrow> zs \<noteq> [] \<Longrightarrow>
   insert_all insert_forum_row (map (\<lambda>(chunk, emb). (a, b, c, d, e, f, chunk, emb)) zs)
     = Inl OverflowError"
  by (cases zs) (auto simp: insert_forum_row_def)

lemma stored_pairs:
  "map stored_pair (map (\<lambda>(chunk, emb). (a, b, c, d, e, f, chunk, emb)) zs) = zs"
  by (induction zs) (auto simp: stored_pair_def)

lemma course_stored_pairs:
  "map course_stored_pair (map (\<lambda>(chunk, emb). (a, b, c, chunk, emb)) zs) = zs"
  by (induction zs) (auto simp: course_stored_pair_def)

lemma post_rows_stored:
  assumes "chunk_text (post_content p) CHUNK_SIZE CHUNK_OVERLAP = Some chunks" and "chunks \<noteq> []"
    and "create chunks = Inr data" and "identifiers_fit p \<or> data = []"
  shows "\<exists>rows. post_rows create p = Some (Inr rows)
           \<and> length rows = min (length chunks) (length data)
           \<and> map stored_pair rows = zip chunks (map embedding data)"
proof -
  let ?rows = "map (\<lambda>(chunk, emb).
      (post_id p, number p, topic_id p, topic_title p, author p,
       ''https://discourse.onlinedegree.iitm.ac.in/t/'' @ str_int (topic_id p)
         @ ''/'' @ str_int (number p), chunk, emb)) (zip chunks (map embedding data))"
  have run: "post_rows create p = Some (insert_all insert_forum_row ?rows)"
    using assms(1-3) by (simp add: post_rows_def embed_def)
  have "insert_all insert_forum_row ?rows = Inr ?rows"
  proof (cases "data = []")
    case True
    then show ?thesis by simp
  next
    case False
    with assms(4) have "identifiers_fit p" by simp
    then show ?thesis
      by (intro insert_all_forum_fit) (simp_all add: identifiers_fit_def)
  qed
  with run have "post_rows create p = Some (Inr ?rows)" by simp
  moreover have "length ?rows = min (length chunks) (length data)" by simp
  moreover have "map stored_pair ?rows = zip chunks (map embedding data)" by (rule stored_pairs)
  ultimately show ?thesis by blast
qed

lemma post_rows_overflow:
  assumes "chunk_text (post_content p) CHUNK_SIZE CHUNK_OVERLAP = Some chunks" and "chunks \<noteq> []"
    and "create chunks = Inr data" and "\<not> identifiers_fit p" and "data \<noteq> []"
  shows "post_rows create p = Some (Inl OverflowError)"
proof -
  let ?zs = "zip chunks (map embedding data)"
  from assms(2,5) have "?zs \<noteq> []" by (cases chunks; cases data) simp_all
  moreover from assms(4)
  have "\<not> (sqlite_integer (post_id p) \<and> sqlite_integer (number p) \<and> sqlite_integer (topic_id p))"
    by (simp add: identifiers_fit_def)
  ultimately have "insert_all insert_forum_row (map (\<lambda>(chunk, emb).
      (post_id p, number p, topic_id p, topic_title p, author p,
       ''https://discourse.onlinedegree.iitm.ac.in/t/'' @ str_int (topic_id p)
         @ ''/'' @ str_int (number p), chunk, emb)) ?zs) = Inl OverflowError"
    by (intro insert_all_forum_overflow)
  with assms(1-3) show ?thesis by (simp add: post_rows_def embed_def)
qed

lemma buffer_rows_stored:
  assumes "chunk_text buffer CHUNK_SIZE CHUNK_OVERLAP = Some chunks" and "create chunks = Inr data"
  shows "\<exists>rows. buffer_rows create source_file section_title doc_url buffer = Some (Inr rows)
           \<and> length rows = min (length chunks) (length data)
           \<and> map course_stored_pair rows = zip chunks (map embedding data)
           \<and> (\<forall>r \<in> set rows. fst r = source_file \<and> fst (snd r) = section_title \<and> row_url r = doc_url)"
proof -
  let ?rows = "map (\<lambda>(chunk, emb). (source_file, section_title, doc_url, chunk, emb))
                 (zip chunks (map embedding data))"
  from assms have "buffer_rows create source_file section_title doc_url buffer = Some (Inr ?rows)"
    by (simp add: buffer_rows_def embed_def)
  moreover have "length ?rows = min (length chunks) (length data)" by simp
  moreover have "map course_stored_pair ?rows = zip chunks (map embedding data)"
    by (rule course_stored_pairs)
  moreover have "\<forall>r \<in> set ?rows. fst r = source_file \<and> fst (snd r) = section_title \<and> row_url r = doc_url"
    by (auto simp: row_url_def)
  ultimately show ?thesis by blast
qed

lemma course_body_flushes:
  assumes "py_strip buffer \<noteq> []"
    and "buffer_rows create source_file section_title doc_url buffer = Some (Inr new)"
  shows "course_body create source_file doc_url section_title buffer rows [] = Some (Inr (rows @ new))"
    and "startswith (py_strip line) ''#'' \<Longrightarrow>
         course_body create source_file doc_url section_title buffer rows (line # lines)
           = course_body create source_file doc_url (py_strip (py_strip_chars ''# '' line)) []
               (rows @ new) lines"
  using assms by simp_all

text \<open>
  C8, amended. \<open>embed\<close> fails exactly with the exception of the remote call when that call
  fails; otherwise it returns the vectors of the provider's response, as many as the response
  has items and in the order of the response, without comparing their number with the number of
  texts. The callers pair chunks and vectors with \<open>zip\<close>. For a post with chunks,
  \<open>process_forum_json\<close> stores \<open>min(len(chunks), len(vectors))\<close> rows, chunk \<open>i\<close> with vector \<open>i\<close>,
  when the post's identifiers fit SQLite's 64-bit integers (or there is no pair to store); when
  they do not fit and there is a pair, the first insert raises \<open>OverflowError\<close> and the post
  stores nothing. For a buffer, \<open>process_course_md\<close> stores \<open>min(len(chunks), len(vectors))\<close> rows,
  chunk \<open>i\<close> with vector \<open>i\<close>, each with the file name, the section title and the URL of the
  document, at both places where it flushes a buffer: at a heading and at the end of the lines.
\<close>

theorem embed_returns_response_vectors:
  "(\<forall>e. create texts = Inl e \<longrightarrow> embed create texts = Inl e)
   \<and> (\<forall>data. create texts = Inr data \<longrightarrow>
         embed create texts = Inr (map embedding data)
         \<and> (\<forall>vs. embed create texts = Inr vs \<longrightarrow> length vs = length data))
   \<and> (\<forall>chunks data.
         chunk_text (post_content p) CHUNK_SIZE CHUNK_OVERLAP = Some chunks \<and> chunks \<noteq> []
         \<and> create chunks = Inr data \<and> (identifiers_fit p \<or> data = []) \<longrightarrow>
         (\<exists>stored. post_rows create p = Some (Inr stored)
            \<and> length stored = min (length chunks) (length data)
            \<and> map stored_pair stored = zip chunks (map embedding data)))
   \<and> (\<forall>chunks data.
         chunk_text (post_content p) CHUNK_SIZE CHUNK_OVERLAP = Some chunks \<and> chunks \<noteq> []
         \<and> create chunks = Inr data \<and> \<not> identifiers_fit p \<and> data \<noteq> [] \<longrightarrow>
         post_rows create p = Some (Inl OverflowError))
   \<and> (\<forall>chunks data.
         chunk_text buffer CHUNK_SIZE CHUNK_OVERLAP = Some chunks \<and> create chunks = Inr data \<longrightarrow>
         (\<exists>stored. buffer_rows create source_file section_title doc_url buffer = Some (Inr stored)
            \<and> length stored = min (length chunks) (length data)
            \<and> map course_stored_pair stored = zip chunks (map embedding data)
            \<and> (\<forall>r \<in> set stored. fst r = source_file \<and> fst (snd r) = section_title
                  \<and> row_url r = doc_url)))
   \<and> (\<forall>new. py_strip buffer \<noteq> []
         \<and> buffer_rows create source_file section_title doc_url buffer = Some (Inr new) \<longrightarrow>
         course_body create source_file doc_url section_title buffer rows []
           = Some (Inr (rows @ new))
         \<and> (startswith (py_strip line) ''#'' \<longrightarrow>
              course_body create source_file doc_url section_title buffer rows (line # lines)
                = course_body create source_file doc_url
                    (py_strip (py_strip_chars ''# '' line)) [] (rows @ new) lines))"
proof -
  have fails: "embed create texts = Inl e" if "create texts = Inl e" for e
    using that by (simp add: embed_def)
  have returns: "embed create texts = Inr (map embedding data)
         \<and> (\<forall>vs. embed create texts = Inr vs \<longrightarrow> length vs = length data)"
    if "create texts = Inr data" for data
    using that by (auto simp: embed_def)
  have forum: "\<exists>stored. post_rows create p = Some (Inr stored)
            \<and> length stored = min (length chunks) (length data)
            \<and> map stored_pair stored = zip chunks (map embedding data)"
    if "chunk_text (post_content p) CHUNK_SIZE CHUNK_OVERLAP = Some chunks \<and> chunks \<noteq> []
         \<and> create chunks = Inr data \<and> (identifiers_fit p \<or> data = [])" for chunks data
    using that by (intro post_rows_stored) blast+
  have overflow: "post_rows create p = Some (Inl OverflowError)"
    if "chunk_text (post_content p) CHUNK_SIZE CHUNK_OVERLAP = Some chunks \<and> chunks \<noteq> []
         \<and> create chunks = Inr data \<and> \<not> identifiers_fit p \<and> data \<noteq> []" for chunks data
    using that by (intro post_rows_overflow [of p chunks create data]) blast+
  have course: "\<exists>stored. buffer_rows create source_file section_title doc_url buffer = Some (Inr stored)
            \<and> length stored = min (length chunks) (length data)
            \<and> map course_stored_pair stored = zip chunks (map embedding data)
            \<and> (\<forall>r \<in> set stored. fst r = source_file \<and> fst (snd r) = section_title
                  \<and> row_url r = doc_url)"
    if "chunk_text buffer CHUNK_SIZE CHUNK_OVERLAP = Some chunks \<and> create chunks = Inr data"
    for chunks data
    using that by (intro buffer_rows_stored) blast+
  have sites: "course_body create source_file doc_url section_title buffer rows []
           = Some (Inr (rows @ new))
         \<and> (startswith (py_strip line) ''#'' \<longrightarrow>
              course_body create source_file doc_url section_title buffer rows (line # lines)
                = course_body create source_file doc_url
                    (py_strip (py_strip_chars ''# '' line)) [] (rows @ new) lines)"
    if "py_strip buffer \<noteq> []
         \<and> buffer_rows create source_file section_title doc_url buffer = Some (Inr new)" for new
    using that course_body_flushes [of buffer create source_file section_title doc_url new]
    by blast
  show ?thesis
    by (intro conjI allI impI)
      (rule fails returns [THEN conjunct1] returns [THEN conjunct2, rule_format] forum overflow
         course sites [THEN conjunct1] sites [THEN conjunct2, rule_format]; assumption)+
qed

lemma long_post_chunks:
  "chunk_text (post_content long_post) CHUNK_SIZE CHUNK_OVERLAP
     = Some [replicate 700 (CHR ''a''), replicate 20 (CHR ''a'')]"
  by code_simp

lemma huge_post_facts:
  "identifiers_fit long_post"
  "\<not> identifiers_fit huge_post"
  "post_content huge_post = post_content long_post"
  by (simp_all add: identifiers_fit_def sqlite_integer_def long_post_def huge_post_def)

lemma hello_buffer:
  "chunk_text example_buffer CHUNK_SIZE CHUNK_OVERLAP = Some [''hello'']"
  "py_strip example_buffer = ''hello''"
  "startswith (py_strip ''# Next'') ''#''"
  "py_strip (py_strip_chars ''# '' ''# Next'') = ''Next''"
  by code_simp+

theorem embed_returns_response_vectors_witness:
  "failing_create [''a''] = Inl (RemoteError ''connection refused'')
   \<and> embed failing_create [''a''] = Inl (RemoteError ''connection refused'')
   \<and> chunk_text (post_content long_post) CHUNK_SIZE CHUNK_OVERLAP
       = Some [replicate 700 (CHR ''a''), replicate 20 (CHR ''a'')]
   \<and> one_vector_create [replicate 700 (CHR ''a''), replicate 20 (CHR ''a'')]
       = Inr [\<lparr>index = 0, embedding = [1, 0]\<rparr>]
   \<and> embed one_vector_create [replicate 700 (CHR ''a''), replicate 20 (CHR ''a'')] = Inr [[1, 0]]
   \<and> identifiers_fit long_post
   \<and> (\<exists>stored. post_rows one_vector_create long_post = Some (Inr stored)
          \<and> length stored = 1
          \<and> map stored_pair stored = [(replicate 700 (CHR ''a''), [1, 0])])
   \<and> \<not> identifiers_fit huge_post
   \<and> post_rows one_vector_create huge_post = Some (Inl OverflowError)
   \<and> chunk_text example_buffer CHUNK_SIZE CHUNK_OVERLAP = Some [''hello'']
   \<and> (\<exists>stored. buffer_rows one_vector_create ''a.md'' ''Intro'' (Some ''https://c.org/p'')
                   example_buffer = Some (Inr stored)
          \<and> length stored = 1
          \<and> map course_stored_pair stored = [(''hello'', [1, 0])])
   \<and> buffer_rows one_vector_create ''a.md'' ''Intro'' (Some ''https://c.org/p'')
         example_buffer
       = Some (Inr [(''a.md'', ''Intro'', Some ''https://c.org/p'', ''hello'', [1, 0])])
   \<and> course_body one_vector_create ''a.md'' (Some ''https://c.org/p'') ''Intro''
         example_buffer [] []
       = Some (Inr [(''a.md'', ''Intro'', Some ''https://c.org/p'', ''hello'', [1, 0])])
   \<and> course_body one_vector_create ''a.md'' (Some ''https://c.org/p'') ''Intro''
         example_buffer [] [''# Next'']
       = Some (Inr [(''a.md'', ''Intro'', Some ''https://c.org/p'', ''hello'', [1, 0])])"
proof -
  let ?two = "[replicate 700 (CHR ''a''), replicate 20 (CHR ''a'')]"
  let ?buffer = example_buffer
  let ?row = "(''a.md'', ''Intro'', Some ''https://c.org/p'', ''hello'', [1, 0 :: real])"
  have f: "failing_create [''a''] = Inl (RemoteError ''connection refused'')"
    by (simp add: failing_create_def)
  have o: "one_vector_create ?two = Inr [\<lparr>index = 0, embedding = [1, 0]\<rparr>]"
    by (simp add: one_vector_create_def)
  have o1: "one_vector_create [''hello''] = Inr [\<lparr>index = 0, embedding = [1, 0]\<rparr>]"
    by (simp add: one_vector_create_def)
  have ne: "?two \<noteq> []" by simp
  have ne1: "[\<lparr>index = 0, embedding = [1, 0 :: real]\<rparr>] \<noteq> []" by simp
  have huge_chunks: "chunk_text (post_content huge_post) CHUNK_SIZE CHUNK_OVERLAP = Some ?two"
    by (simp only: huge_post_facts(3) long_post_chunks)
  have rows: "buffer_rows one_vector_create ''a.md'' ''Intro'' (Some ''https://c.org/p'') ?buffer
       = Some (Inr [?row])"
    by (simp add: buffer_rows_def hello_buffer(1) embed_def one_vector_create_def)
  have nonblank: "py_strip ?buffer \<noteq> []"
    by (simp only: hello_buffer(2)) simp
  note F = embed_returns_response_vectors [where create = failing_create and texts = "[''a'']",
    THEN conjunct1, rule_format, OF f]
  note R = embed_returns_response_vectors [where create = one_vector_create and texts = ?two,
    THEN conjunct2, THEN conjunct1, rule_format, OF o, THEN conjunct1]
  note S = embed_returns_response_vectors [where create = one_vector_create and p = long_post,
    THEN conjunct2, THEN conjunct2, THEN conjunct1, rule_format,
    OF conjI [OF long_post_chunks conjI [OF ne conjI [OF o disjI1 [OF huge_post_facts(1)]]]]]
  note V = embed_returns_response_vectors [where create = one_vector_create and p = huge_post,
    THEN conjunct2, THEN conjunct2, THEN conjunct2, THEN conjunct1, rule_format,
    OF conjI [OF huge_chunks conjI [OF ne conjI [OF o conjI [OF huge_post_facts(2) ne1]]]]]
  note C = embed_returns_response_vectors [where create = one_vector_create
    and buffer = ?buffer and source_file = "''a.md''" and section_title = "''Intro''"
    and doc_url = "Some ''https://c.org/p''",
    THEN conjunct2, THEN conjunct2, THEN conjunct2, THEN conjunct2, THEN conjunct1,
    rule_format, OF conjI [OF hello_buffer(1) o1]]
  note E = embed_returns_response_vectors [where create = one_vector_create
    and buffer = ?buffer and source_file = "''a.md''" and section_title = "''Intro''"
    and doc_url = "Some ''https://c.org/p''" and rows = "[]" and line = "''# Next''"
    and lines = "[]",
    THEN conjunct2, THEN conjunct2, THEN conjunct2, THEN conjunct2, THEN conjunct2,
    rule_format, OF conjI [OF nonblank rows]]
  from R have r: "embed one_vector_create ?two = Inr [[1, 0]]" by simp
  from S have s: "\<exists>stored. post_rows one_vector_create long_post = Some (Inr stored)
          \<and> length stored = 1
          \<and> map stored_pair stored = [(replicate 700 (CHR ''a''), [1, 0])]"
    by simp
  from C have c: "\<exists>stored. buffer_rows one_vector_create ''a.md'' ''Intro''
                   (Some ''https://c.org/p'') ?buffer = Some (Inr stored)
          \<and> length stored = 1
          \<and> map course_stored_pair stored = [(''hello'', [1, 0])]"
    by auto
  from E [THEN conjunct1]
  have e1: "course_body one_vector_create ''a.md'' (Some ''https://c.org/p'') ''Intro''
         ?buffer [] [] = Some (Inr [?row])"
    by simp
  from E [THEN conjunct2, rule_format, OF hello_buffer(3)]
  have e2: "course_body one_vector_create ''a.md'' (Some ''https://c.org/p'') ''Intro''
         ?buffer [] [''# Next''] = Some (Inr [?row])"
    by (simp add: hello_buffer(4) py_strip_def)
  from f F long_post_chunks o r huge_post_facts(1) s huge_post_facts(2) V hello_buffer(1) c rows
    e1 e2
  show ?thesis by (intro conjI)
qed

end
